theory Spec2Isabelle
  imports Main "HOL-Library.AList"
begin

section \<open>Strings and characters\<close>

text \<open>
  A Python string is modelled as an Isabelle \<open>string\<close>, one \<open>char\<close> per code point;
  the model therefore covers the code points 0 to 255. The character predicates below are
  those of Python's \<open>re\<close> module on that range for patterns compiled with
  \<open>re.I | re.UNICODE\<close>: \<open>\w\<close> is alphanumeric or underscore, \<open>\d\<close> is a decimal
  digit, \<open>\s\<close> is whitespace, and two characters are equal up to case when their lower
  case forms coincide.
\<close>

definition sq :: char where
  "sq = CHR 0x27"

definition bq :: char where
  "bq = CHR 0x60"

definition bs :: char where
  "bs = CHR 0x5C"

definition dq :: char where
  "dq = CHR 0x22"

definition nl :: char where
  "nl = CHR 0x0A"

definition cr :: char where
  "cr = CHR 0x0D"

definition lower_chr :: "char \<Rightarrow> char" where
  "lower_chr c =
     (let n = (of_char c :: nat)
      in if (65 \<le> n \<and> n \<le> 90) \<or> (192 \<le> n \<and> n \<le> 222 \<and> n \<noteq> 215)
         then char_of (n + 32) else c)"

definition lower :: "string \<Rightarrow> string" where
  "lower s = map lower_chr s"

definition is_digit :: "char \<Rightarrow> bool" where
  "is_digit c = (let n = (of_char c :: nat) in 48 \<le> n \<and> n \<le> 57)"

definition is_word :: "char \<Rightarrow> bool" where
  "is_word c =
     (let n = (of_char c :: nat)
      in (48 \<le> n \<and> n \<le> 57) \<or> (65 \<le> n \<and> n \<le> 90) \<or> n = 95 \<or> (97 \<le> n \<and> n \<le> 122)
         \<or> n = 170 \<or> n = 178 \<or> n = 179 \<or> n = 181 \<or> n = 185 \<or> n = 186
         \<or> (188 \<le> n \<and> n \<le> 190) \<or> (192 \<le> n \<and> n \<le> 214)
         \<or> (216 \<le> n \<and> n \<le> 246) \<or> 248 \<le> n)"

definition is_space :: "char \<Rightarrow> bool" where
  "is_space c =
     (let n = (of_char c :: nat)
      in (9 \<le> n \<and> n \<le> 13) \<or> (28 \<le> n \<and> n \<le> 32) \<or> n = 133 \<or> n = 160)"

definition startswith :: "string \<Rightarrow> string \<Rightarrow> bool" where
  "startswith s pre = (take (length pre) s = pre)"

text \<open>\<open>str.replace(old, new)\<close>: non-overlapping occurrences, left to right.\<close>

function replace_ne :: "string \<Rightarrow> string \<Rightarrow> string \<Rightarrow> string" where
  "replace_ne old new [] = []"
| "replace_ne old new (c # cs) =
     (if old \<noteq> [] \<and> startswith (c # cs) old
      then new @ replace_ne old new (drop (length old) (c # cs))
      else c # replace_ne old new cs)"
  by pat_completeness auto
termination
  by (relation "measure (\<lambda>(old, new, s). length s)") auto

definition replace :: "string \<Rightarrow> string \<Rightarrow> string \<Rightarrow> string" where
  "replace old new s =
     (if old = [] then new @ concat (map (\<lambda>c. c # new) s) else replace_ne old new s)"

text \<open>\<open>int(v)\<close> on a string of decimal digits.\<close>

definition int_of_digits :: "string \<Rightarrow> int" where
  "int_of_digits s = foldl (\<lambda>a c. 10 * a + (int (of_char c) - 48)) 0 s"

section \<open>Regular expressions with Python's backtracking semantics\<close>

text \<open>
  The patterns of \<open>_prep_regexes\<close> are written in the following syntax. \<open>run r st\<close> is
  the list of all ways in which \<open>r\<close> matches at the current position, in the order in
  which a backtracking matcher tries them; the first element is the match that
  \<open>re\<close> reports. A matcher state is a flag (still at the start of the subject), the
  text that remains, and the groups captured so far (latest first).

  A repetition stops when an iteration consumes nothing; no pattern of this program has a
  repetition whose body can match the empty string.
\<close>

datatype citem = CChar char | CWord | CDigit | CSpace

fun item_match :: "citem \<Rightarrow> char \<Rightarrow> bool" where
  "item_match (CChar x) c = (lower_chr c = lower_chr x)"
| "item_match CWord c = is_word (lower_chr c)"
| "item_match CDigit c = is_digit (lower_chr c)"
| "item_match CSpace c = is_space (lower_chr c)"

datatype atom = Dot | In "citem list" | NotIn "citem list"

fun atom_match :: "atom \<Rightarrow> char \<Rightarrow> bool" where
  "atom_match Dot c = (c \<noteq> CHR 0x0A)"
| "atom_match (In cs) c = list_ex (\<lambda>i. item_match i c) cs"
| "atom_match (NotIn cs) c = (\<not> list_ex (\<lambda>i. item_match i c) cs)"

datatype rx =
    Eps
  | Atom atom
  | Seq rx rx
  | Alt rx rx
  | Star rx
  | LazyStar rx
  | Grp string rx
  | Bol
  | Eol
  | Ahead rx
  | NotAhead rx

type_synonym caps = "(string \<times> string) list"

type_synonym mstate = "bool \<times> string \<times> caps"

definition rest_of :: "mstate \<Rightarrow> string" where
  "rest_of st = fst (snd st)"

definition caps_of :: "mstate \<Rightarrow> caps" where
  "caps_of st = snd (snd st)"

primrec star :: "(mstate \<Rightarrow> mstate list) \<Rightarrow> nat \<Rightarrow> mstate \<Rightarrow> mstate list" where
  "star f 0 st = [st]"
| "star f (Suc n) st =
     concat (map (\<lambda>st'. if length (rest_of st') < length (rest_of st) then star f n st' else [])
                 (f st)) @ [st]"

primrec lazy_star :: "(mstate \<Rightarrow> mstate list) \<Rightarrow> nat \<Rightarrow> mstate \<Rightarrow> mstate list" where
  "lazy_star f 0 st = [st]"
| "lazy_star f (Suc n) st =
     st # concat (map (\<lambda>st'. if length (rest_of st') < length (rest_of st)
                              then lazy_star f n st' else [])
                      (f st))"

primrec run :: "rx \<Rightarrow> mstate \<Rightarrow> mstate list" where
  "run Eps st = [st]"
| "run (Atom a) st =
     (case rest_of st of
        [] \<Rightarrow> []
      | c # cs \<Rightarrow> if atom_match a c then [(False, cs, caps_of st)] else [])"
| "run (Seq r1 r2) st = concat (map (run r2) (run r1 st))"
| "run (Alt r1 r2) st = run r1 st @ run r2 st"
| "run (Star r) st = star (run r) (length (rest_of st)) st"
| "run (LazyStar r) st = lazy_star (run r) (length (rest_of st)) st"
| "run (Grp g r) st =
     map (\<lambda>st'. (fst st', rest_of st',
                  (g, take (length (rest_of st) - length (rest_of st')) (rest_of st)) # caps_of st'))
         (run r st)"
| "run Bol st = (if fst st then [st] else [])"
| "run Eol st = (if rest_of st = [] \<or> rest_of st = [CHR 0x0A] then [st] else [])"
| "run (Ahead r) st = (if run r st = [] then [] else [st])"
| "run (NotAhead r) st = (if run r st = [] then [st] else [])"

definition Lit :: "char \<Rightarrow> rx" where
  "Lit c = Atom (In [CChar c])"

definition Str :: "string \<Rightarrow> rx" where
  "Str s = foldr (\<lambda>c r. Seq (Lit c) r) s Eps"

definition Opt :: "rx \<Rightarrow> rx" where
  "Opt r = Alt r Eps"

definition LazyOpt :: "rx \<Rightarrow> rx" where
  "LazyOpt r = Alt Eps r"

definition Plus :: "rx \<Rightarrow> rx" where
  "Plus r = Seq r (Star r)"

definition LazyPlus :: "rx \<Rightarrow> rx" where
  "LazyPlus r = Seq r (LazyStar r)"

definition Seqs :: "rx list \<Rightarrow> rx" where
  "Seqs rs = foldr Seq rs Eps"

text \<open>
  \<open>re_match_at r b s\<close>: one attempt of the pattern at the current position, as
  \<open>pattern.match\<close> makes it at position 0; the result is the text left after the match
  and the groups. \<open>group caps g\<close> is \<open>m.group(g)\<close>, \<open>None\<close> for a group that took no
  part in the match.
\<close>

definition re_match_at :: "rx \<Rightarrow> bool \<Rightarrow> string \<Rightarrow> (string \<times> caps) option" where
  "re_match_at r b s =
     (case run r (b, s, []) of [] \<Rightarrow> None | st # _ \<Rightarrow> Some (rest_of st, caps_of st))"

definition re_match :: "rx \<Rightarrow> string \<Rightarrow> caps option" where
  "re_match r s = map_option snd (re_match_at r True s)"

definition group :: "caps \<Rightarrow> string \<Rightarrow> string option" where
  "group caps g = map_of caps g"

text \<open>Python truthiness of a group value: \<open>None\<close> and the empty string are false.\<close>

definition truthy :: "string option \<Rightarrow> bool" where
  "truthy v = (case v of None \<Rightarrow> False | Some s \<Rightarrow> s \<noteq> [])"

text \<open>\<open>pattern.search\<close>: the first position, from the left, at which the pattern matches.\<close>

fun re_search_at :: "rx \<Rightarrow> bool \<Rightarrow> string \<Rightarrow> caps option" where
  "re_search_at r b [] = map_option snd (re_match_at r b [])"
| "re_search_at r b (c # cs) =
     (case re_match_at r b (c # cs) of
        Some res \<Rightarrow> Some (snd res)
      | None \<Rightarrow> re_search_at r False cs)"

definition re_search :: "rx \<Rightarrow> string \<Rightarrow> caps option" where
  "re_search r s = re_search_at r True s"

text \<open>
  \<open>pattern.sub("", s)\<close>: every non-overlapping match, scanning from the left, is removed.
  A match of no characters removes nothing and the scan moves on by one character.
\<close>

function re_sub_at :: "rx \<Rightarrow> bool \<Rightarrow> string \<Rightarrow> string" where
  "re_sub_at r b [] = []"
| "re_sub_at r b (c # cs) =
     (case re_match_at r b (c # cs) of
        None \<Rightarrow> c # re_sub_at r False cs
      | Some res \<Rightarrow>
          if length (fst res) < length (c # cs) then re_sub_at r False (fst res)
          else c # re_sub_at r False cs)"
  by pat_completeness auto
termination
  by (relation "measure (\<lambda>(r, b, s). length s)") auto

definition re_sub :: "rx \<Rightarrow> string \<Rightarrow> string" where
  "re_sub r s = re_sub_at r True s"

text \<open>
  \<open>pattern.finditer\<close>: the non-overlapping matches from the left, each as the matched
  text and its groups. \<open>findall\<close> of a pattern without groups returns the matched texts.
\<close>

function re_finditer_at :: "rx \<Rightarrow> bool \<Rightarrow> string \<Rightarrow> (string \<times> caps) list" where
  "re_finditer_at r b [] =
     (case re_match_at r b [] of None \<Rightarrow> [] | Some res \<Rightarrow> [([], snd res)])"
| "re_finditer_at r b (c # cs) =
     (case re_match_at r b (c # cs) of
        None \<Rightarrow> re_finditer_at r False cs
      | Some res \<Rightarrow>
          if length (fst res) < length (c # cs)
          then (take (length (c # cs) - length (fst res)) (c # cs), snd res)
                 # re_finditer_at r False (fst res)
          else ([], snd res) # re_finditer_at r False cs)"
  by pat_completeness auto
termination
  by (relation "measure (\<lambda>(r, b, s). length s)") auto

definition re_findall :: "rx \<Rightarrow> string \<Rightarrow> string list" where
  "re_findall r s = map fst (re_finditer_at r True s)"

text \<open>\<open>re.split(pattern, s)\<close> for a pattern without groups.\<close>

function re_split_at :: "rx \<Rightarrow> bool \<Rightarrow> string \<Rightarrow> string \<Rightarrow> string list" where
  "re_split_at r b [] acc = [rev acc]"
| "re_split_at r b (c # cs) acc =
     (case re_match_at r b (c # cs) of
        None \<Rightarrow> re_split_at r False cs (c # acc)
      | Some res \<Rightarrow>
          if length (fst res) < length (c # cs) then rev acc # re_split_at r False (fst res) []
          else re_split_at r False cs (c # acc))"
  by pat_completeness auto
termination
  by (relation "measure (\<lambda>(r, b, s, acc). length s)") auto

definition re_split :: "rx \<Rightarrow> string \<Rightarrow> string list" where
  "re_split r s = re_split_at r True s []"

section \<open>The collaborators of the parser\<close>

text \<open>
  The identifier preparer and the dialect are supplied to \<open>MySQLTableDefinitionParser\<close>
  by its caller; the parser reads the attributes below and nothing else. The quotes are
  single characters. A type class of the registry \<open>ischema_names\<close> is known to the parser
  only through \<open>issubclass\<close> against six classes, so it is modelled by its name and the
  list of those classes it derives from; a type instance is the class with the positional
  and keyword arguments the parser passes to it. Whether the constructor of a class accepts
  these arguments belongs to the class, not to the parser: \<open>init_error c args kw\<close> is the
  exception that the call \<open>c(*args, **kw)\<close> raises, \<open>None\<close> when the call returns. It
  covers the classes of the registry and \<open>sqltypes.NullType\<close>, and is supplied together
  with the registry.
\<close>

record preparer =
  initial_quote :: char
  final_quote :: char
  escape_identifier :: "string \<Rightarrow> string"
  unescape_identifier :: "string \<Rightarrow> string"
  quote_identifier :: "string \<Rightarrow> string"
  unformat_identifiers :: "string \<Rightarrow> string list"

datatype family = DATETIME | TIME | TIMESTAMP | ENUM | SET | Integer

record type_cls =
  cls_name :: string
  bases :: "family list"

definition issubclass :: "type_cls \<Rightarrow> family list \<Rightarrow> bool" where
  "issubclass c fs = list_ex (\<lambda>f. f \<in> set (bases c)) fs"

definition NullType :: type_cls where
  "NullType = \<lparr>cls_name = ''NullType'', bases = []\<rparr>"

datatype pyval = PyNone | PyBool bool | PyInt int | PyStr string

datatype error = TypeError | IndexError

record dialect =
  d_name :: string
  ischema_names :: "string \<Rightarrow> type_cls option"
  init_error :: "type_cls \<Rightarrow> pyval list \<Rightarrow> (string \<times> pyval) list \<Rightarrow> error option"

record type_instance =
  t_class :: type_cls
  t_args :: "pyval list"
  t_kw :: "(string \<times> pyval) list"

section \<open>The result of a parse\<close>

record computed =
  sqltext :: string
  persisted :: "bool option"

record column =
  c_name :: "string option"
  c_type :: type_instance
  c_default :: "string option"
  c_comment :: "string option"
  c_nullable :: bool
  c_autoincrement :: "bool option"
  c_computed :: "computed option"

record key_spec =
  k_type :: "string option"
  k_name :: "string option"
  k_using_pre :: "string option"
  k_columns :: "(string \<times> string \<times> string) list"
  k_using_post :: "string option"
  k_keyblock :: "string option"
  k_parser :: "string option"
  k_comment :: "string option"
  k_version_sql :: "string option"

record fk_spec =
  fk_name :: "string option"
  fk_local :: "string list"
  fk_table :: "string list"
  fk_foreign :: "string list"
  fk_match :: "string option"
  fk_ondelete :: "string option"
  fk_onupdate :: "string option"

record ck_spec =
  ck_name :: "string option"
  ck_sqltext :: "string option"

record ReflectedState =
  columns :: "column list"
  table_options :: "(string \<times> string) list"
  table_name :: "string option"
  keys :: "key_spec list"
  fk_constraints :: "fk_spec list"
  ck_constraints :: "ck_spec list"
  charset :: string

definition new_state :: "string \<Rightarrow> ReflectedState" where
  "new_state cs =
     \<lparr>columns = [], table_options = [], table_name = None, keys = [],
      fk_constraints = [], ck_constraints = [], charset = cs\<rparr>"

text \<open>
  \<open>util.warn\<close> is modelled by the list of warnings returned with the state; a warning
  carries the values its message quotes. An exception that leaves \<open>parse\<close> is an
  \<open>error\<close>, the type declared with the collaborators above.
\<close>

datatype warning =
    UnknownSchemaContent string
  | UnknownColumnDefinition string
  | IncompleteReflection string
  | UnrecognizedType "string option" "string option"

section \<open>The patterns of \<open>_prep_regexes\<close>\<close>

definition sp :: rx where
  "sp = Lit CHR '' ''"

definition word :: rx where
  "word = Atom (In [CWord])"

definition digit :: rx where
  "digit = Atom (In [CDigit])"

definition space :: rx where
  "space = Atom (In [CSpace])"

definition nonspace :: rx where
  "nonspace = Atom (NotIn [CSpace])"

definition notsq :: rx where
  "notsq = Atom (NotIn [CChar sq])"

definition iq :: "preparer \<Rightarrow> rx" where
  "iq p = Lit (initial_quote p)"

definition fq :: "preparer \<Rightarrow> rx" where
  "fq p = Lit (final_quote p)"

definition esc_fq :: "preparer \<Rightarrow> rx" where
  "esc_fq p = Str (escape_identifier p [final_quote p])"

definition notfq :: "preparer \<Rightarrow> rx" where
  "notfq p = Atom (NotIn [CChar (final_quote p)])"

text \<open>\<open>%(iq)s(?P<g>(?:%(esc_fq)s|[^%(fq)s])+)%(fq)s\<close>\<close>

definition quoted :: "preparer \<Rightarrow> string \<Rightarrow> rx" where
  "quoted p g = Seqs [iq p, Grp g (Plus (Alt (esc_fq p) (notfq p))), fq p]"

definition pr_name :: "preparer \<Rightarrow> rx" where
  "pr_name p =
     Seqs [Bol, Str ''CREATE '', Opt (Seq (Plus word) (Plus sp)), Str ''TABLE'', Plus sp,
           quoted p ''name'', Plus sp, Lit CHR ''('', Eol]"

definition re_keyexprs :: "preparer \<Rightarrow> rx" where
  "re_keyexprs p =
     Plus (Seqs [quoted p ''1'',
                 Opt (Seqs [Lit CHR ''('', Grp ''2'' (Plus digit), Lit CHR '')'']),
                 Opt (Seq (Plus sp) (Grp ''3'' (Alt (Str ''ASC'') (Str ''DESC'')))),
                 Ahead (Alt (Lit CHR '','') Eol)])"

definition re_csv_str :: rx where
  "re_csv_str = Seqs [Lit sq, Star (Alt (Str [sq, sq]) notsq), Lit sq]"

definition re_csv_int :: rx where
  "re_csv_int = Plus digit"

definition tok :: rx where
  "tok = Atom (In [CWord, CChar CHR ''.'', CChar CHR ''('', CChar CHR '')''])"

definition wordu :: rx where
  "wordu = Atom (In [CWord, CChar CHR ''_''])"

definition re_column :: "preparer \<Rightarrow> rx" where
  "re_column p =
     Seqs [Str ''  '', quoted p ''name'', Plus sp,
       Grp ''coltype'' (Plus word),
       Opt (Seqs [Lit CHR ''('',
                  Grp ''arg'' (Alt (Alt (Plus digit) (Seqs [Plus digit, Lit CHR '','', Plus digit]))
                                   (Plus (Seqs [Lit sq, Star (Alt (Str [sq, sq]) notsq), Lit sq,
                                                Opt (Lit CHR '','')]))),
                  Lit CHR '')'']),
       Opt (Seq (Plus sp) (Grp ''unsigned'' (Str ''UNSIGNED''))),
       Opt (Seq (Plus sp) (Grp ''zerofill'' (Str ''ZEROFILL''))),
       Opt (Seqs [Plus sp, Str ''CHARACTER SET'', Plus sp, Grp ''charset'' (Plus wordu)]),
       Opt (Seqs [Plus sp, Str ''COLLATE'', Plus sp, Grp ''collate'' (Plus wordu)]),
       Opt (Seq (Plus sp) (Grp ''notnull'' (Seq (Opt (Str ''NOT '')) (Str ''NULL'')))),
       Opt (Seqs [Plus sp, Str ''DEFAULT'', Plus sp,
                  Grp ''default''
                    (Alt (Alt (Str ''NULL'')
                              (Seqs [Lit sq, Star (Alt (Str [sq, sq]) notsq), Lit sq]))
                         (Seq (Plus tok)
                              (Opt (Seqs [Plus sp, Str ''ON UPDATE '', Plus tok]))))]),
       Opt (Seqs [Plus sp, Opt (Str ''GENERATED ALWAYS''), Opt sp, Str ''AS'', Plus sp,
                  Opt (Grp ''generated'' (Seqs [Lit CHR ''('', Star (Atom Dot), Lit CHR '')''])),
                  Opt sp,
                  Opt (Grp ''persistence'' (Alt (Str ''VIRTUAL'') (Str ''STORED'')))]),
       Opt (Seq (Plus sp) (Grp ''autoincr'' (Str ''AUTO_INCREMENT''))),
       Opt (Seqs [Plus sp, Str ''COMMENT'', Plus sp, Lit sq,
                  Grp ''comment'' (Star (Alt (Str [sq, sq]) notsq)), Lit sq]),
       Opt (Seqs [Plus sp, Str ''COLUMN_FORMAT'', Plus sp, Grp ''colfmt'' (Plus word)]),
       Opt (Seqs [Plus sp, Str ''STORAGE'', Plus sp, Grp ''storage'' (Plus word)]),
       Opt (Seq (Plus sp) (Grp ''extra'' (Star (Atom Dot)))),
       Opt (Lit CHR '',''), Eol]"

definition re_column_loose :: "preparer \<Rightarrow> rx" where
  "re_column_loose p =
     Seqs [Str ''  '', quoted p ''name'', Plus sp,
       Grp ''coltype'' (Plus word),
       Opt (Seqs [Lit CHR ''('',
                  Grp ''arg'' (Alt (Alt (Plus digit) (Seqs [Plus digit, Lit CHR '','', Plus digit]))
                                   (Seqs [Lit sq, Plus (Alt (Str [sq, sq]) notsq), Lit sq])),
                  Lit CHR '')'']),
       LazyStar (Atom Dot),
       Opt (Grp ''notnull'' (Seq (Str ''NOT '') (Str ''NULL'')))]"

definition re_key :: "preparer \<Rightarrow> rx" where
  "re_key p =
     Seqs [Str ''  '',
       Opt (Seq (Grp ''type'' (Plus nonspace)) sp), Str ''KEY'',
       Opt (Seq (Plus sp) (quoted p ''name'')),
       Opt (Seqs [Plus sp, Str ''USING'', Plus sp, Grp ''using_pre'' (Plus nonspace)]),
       Plus sp, Lit CHR ''('', Grp ''columns'' (LazyPlus (Atom Dot)), Lit CHR '')'',
       Opt (Seqs [Plus sp, Str ''USING'', Plus sp, Grp ''using_post'' (Plus nonspace)]),
       Opt (Seqs [Plus sp, Str ''KEY_BLOCK_SIZE'', Star sp,
                  Opt (Atom (In [CChar CHR '' '', CChar CHR ''=''])), Star sp,
                  Grp ''keyblock'' (Plus nonspace)]),
       Opt (Seqs [Plus sp, Str ''WITH PARSER'', Plus sp, Grp ''parser'' (Plus nonspace)]),
       Opt (Seqs [Plus sp, Str ''COMMENT'', Plus sp,
                  Grp ''comment'' (Plus (Alt (Str [sq, sq])
                                              (Seqs [Lit sq, LazyStar notsq, Lit sq])))]),
       Opt (Seqs [Plus sp, Str ''/*'', Grp ''version_sql'' (Plus (Atom Dot)), Str ''*/'',
                  Plus sp]),
       Opt (Lit CHR '',''), Eol]"

definition re_key_version_sql :: rx where
  "re_key_version_sql =
     Seqs [Lit CHR ''!'', Plus digit, sp,
           Opt (Seqs [Star sp, Str ''WITH PARSER'', Plus sp, Grp ''parser'' (Plus nonspace),
                      Star sp])]"

definition on_action :: rx where
  "on_action =
     Alt (Alt (Alt (Str ''RESTRICT'') (Str ''CASCADE'')) (Str ''SET NULL'')) (Str ''NO ACTION'')"

definition re_fk_constraint :: "preparer \<Rightarrow> rx" where
  "re_fk_constraint p =
     Seqs [Str ''  '', Str ''CONSTRAINT'', Plus sp, quoted p ''name'', Plus sp,
       Str ''FOREIGN KEY'', Plus sp,
       Lit CHR ''('', Grp ''local'' (LazyPlus (Atom (NotIn [CChar CHR '')'']))), Lit CHR '')'',
       Str '' REFERENCES'', Plus sp,
       Grp ''table'' (Seqs [iq p, Plus (notfq p), fq p,
                            Opt (Seqs [Lit CHR ''.'', iq p, Plus (notfq p), fq p])]),
       Plus sp,
       Lit CHR ''('', Grp ''foreign'' (LazyPlus (Atom (NotIn [CChar CHR '')'']))), Lit CHR '')'',
       Opt (Seq (Plus sp) (Grp ''match'' (Seq (Str ''MATCH '') (Plus word)))),
       Opt (Seqs [Plus sp, Str ''ON DELETE '', Grp ''ondelete'' on_action]),
       Opt (Seqs [Plus sp, Str ''ON UPDATE '', Grp ''onupdate'' on_action])]"

definition re_ck_constraint :: "preparer \<Rightarrow> rx" where
  "re_ck_constraint p =
     Seqs [Str ''  '', Str ''CONSTRAINT'', Plus sp, quoted p ''name'', Plus sp,
       Str ''CHECK'', Plus sp,
       Lit CHR ''('', Grp ''sqltext'' (Plus (Atom Dot)), Lit CHR '')'', Opt (Lit CHR '','')]"

definition re_partition :: rx where
  "re_partition = Seqs [Star (Atom Dot), Opt (Str ''SUB''), Str ''PARTITION'', Star (Atom Dot)]"

text \<open>The table options: a pattern and an optional clean-up of the value.\<close>

definition optional_equals :: rx where
  "optional_equals = Alt (Seq (Star space) (Seq (Lit CHR ''='') (Star space))) (Plus space)"

definition option_cleanup :: "string \<Rightarrow> string" where
  "option_cleanup v = replace [sq, sq] [sq] (replace [bs, bs] [bs] v)"

definition add_option_string :: "string \<Rightarrow> rx \<times> (string \<Rightarrow> string) option" where
  "add_option_string directive =
     (Seqs [Grp ''directive'' (Str directive), optional_equals, Lit sq,
            Grp ''val'' (LazyStar (Alt notsq (Str [sq, sq]))), Lit sq, NotAhead (Lit sq)],
      Some option_cleanup)"

definition add_option_word :: "string \<Rightarrow> rx \<times> (string \<Rightarrow> string) option" where
  "add_option_word directive =
     (Seqs [Grp ''directive'' (Str directive), optional_equals, Grp ''val'' (Plus word)], None)"

definition add_option_regex :: "string \<Rightarrow> rx \<Rightarrow> rx \<times> (string \<Rightarrow> string) option" where
  "add_option_regex directive regex =
     (Seqs [Grp ''directive'' (Str directive), optional_equals, Grp ''val'' regex], None)"

definition options_of_type_string :: "string list" where
  "options_of_type_string =
     [''COMMENT'', ''DATA DIRECTORY'', ''INDEX DIRECTORY'', ''PASSWORD'', ''CONNECTION'']"

definition options_of_type_word :: "string list" where
  "options_of_type_word =
     [''ENGINE'', ''TYPE'', ''AUTO_INCREMENT'', ''AVG_ROW_LENGTH'', ''CHARACTER SET'',
      ''DEFAULT CHARSET'', ''CHECKSUM'', ''COLLATE'', ''DELAY_KEY_WRITE'', ''INSERT_METHOD'',
      ''MAX_ROWS'', ''MIN_ROWS'', ''PACK_KEYS'', ''ROW_FORMAT'', ''KEY_BLOCK_SIZE'']"

definition pr_options :: "(rx \<times> (string \<Rightarrow> string) option) list" where
  "pr_options =
     map add_option_string options_of_type_string
     @ map add_option_word options_of_type_word
     @ [add_option_regex ''UNION''
          (Seqs [Lit CHR ''('', Plus (Atom (NotIn [CChar CHR '')''])), Lit CHR '')'']),
        add_option_regex ''TABLESPACE'' (Seq (LazyStar (Atom Dot)) (Str '' STORAGE DISK'')),
        add_option_regex ''RAID_TYPE''
          (Seqs [Plus word, Plus space, Str ''RAID_CHUNKS'', Star space, Lit CHR ''='',
                 Star space, Plus word, Str ''RAID_CHUNKSIZE'', Star space, Lit CHR ''='',
                 Star space, Plus word])]"

section \<open>The parser\<close>

text \<open>
  \<open>group_str\<close> reads a group that is not optional in its pattern, so that every match
  sets it.
\<close>

definition group_str :: "caps \<Rightarrow> string \<Rightarrow> string" where
  "group_str m g = (case group m g of None \<Rightarrow> [] | Some s \<Rightarrow> s)"

text \<open>\<open>findall\<close> of a pattern with groups gives the groups, the empty string for an unset one.\<close>

definition parse_keyexprs :: "preparer \<Rightarrow> string \<Rightarrow> (string \<times> string \<times> string) list" where
  "parse_keyexprs p identifiers =
     map (\<lambda>res. (group_str (snd res) ''1'', group_str (snd res) ''2'', group_str (snd res) ''3''))
         (re_finditer_at (re_keyexprs p) True identifiers)"

text \<open>\<open>_strip_values\<close>: slicing a value that is not a string raises \<open>TypeError\<close>.\<close>

fun strip_value :: "pyval \<Rightarrow> error + pyval" where
  "strip_value (PyStr a) =
     Inr (PyStr (if take 1 a = [dq] \<or> take 1 a = [sq]
                 then replace [hd a, hd a] [hd a] (butlast (tl a))
                 else a))"
| "strip_value v = Inl TypeError"

fun strip_values :: "pyval list \<Rightarrow> error + pyval list" where
  "strip_values [] = Inr []"
| "strip_values (a # as) =
     (case strip_value a of
        Inl e \<Rightarrow> Inl e
      | Inr v \<Rightarrow> (case strip_values as of Inl e \<Rightarrow> Inl e | Inr vs \<Rightarrow> Inr (v # vs)))"

subsection \<open>\<open>_parse_column\<close>\<close>

definition match_column :: "preparer \<Rightarrow> string \<Rightarrow> (caps \<times> bool) option" where
  "match_column p line =
     (case re_match (re_column p) line of
        Some spec \<Rightarrow> Some (spec, True)
      | None \<Rightarrow>
          (case re_match (re_column_loose p) line of
             Some spec \<Rightarrow> Some (spec, False)
           | None \<Rightarrow> None))"

definition column_type_args :: "string option \<Rightarrow> pyval list" where
  "column_type_args args =
     (case args of
        None \<Rightarrow> []
      | Some a \<Rightarrow>
          if a = [] then []
          else if hd a = sq \<and> last a = sq then map PyStr (re_findall re_csv_str a)
          else map (\<lambda>v. PyInt (int_of_digits v)) (re_findall re_csv_int a))"

definition fsp_split :: "type_cls \<Rightarrow> pyval list \<Rightarrow> pyval list \<times> (string \<times> pyval) list" where
  "fsp_split col_type type_args =
     (if issubclass col_type [DATETIME, TIME, TIMESTAMP]
      then (case type_args of [] \<Rightarrow> ([], []) | a # as \<Rightarrow> (as, [(''fsp'', a)]))
      else (type_args, []))"

definition flag_kw :: "caps \<Rightarrow> (string \<times> pyval) list \<Rightarrow> (string \<times> pyval) list" where
  "flag_kw spec type_kw =
     foldl (\<lambda>kw k. if truthy (group spec k) then AList.update k (PyStr (group_str spec k)) kw else kw)
       (foldl (\<lambda>kw k. if truthy (group spec k) then AList.update k (PyBool True) kw else kw)
          type_kw [''unsigned'', ''zerofill''])
       [''charset'', ''collate'']"

definition enum_set_args ::
  "type_cls \<Rightarrow> pyval list \<Rightarrow> (string \<times> pyval) list
     \<Rightarrow> error + (pyval list \<times> (string \<times> pyval) list)" where
  "enum_set_args col_type type_args type_kw =
     (if issubclass col_type [ENUM, SET]
      then (case strip_values type_args of
              Inl e \<Rightarrow> Inl e
            | Inr vs \<Rightarrow>
                Inr (vs, if issubclass col_type [SET] \<and> PyStr [] \<in> set vs
                         then AList.update ''retrieve_as_bitwise'' (PyBool True) type_kw
                         else type_kw))
      else Inr (type_args, type_kw))"

definition column_nullable :: "caps \<Rightarrow> bool" where
  "column_nullable spec = (group spec ''notnull'' \<noteq> Some ''NOT NULL'')"

definition column_autoincrement :: "caps \<Rightarrow> type_cls \<Rightarrow> bool option" where
  "column_autoincrement spec col_type =
     (if truthy (group spec ''autoincr'') then Some True
      else if issubclass col_type [Integer] then Some False
      else None)"

definition column_default :: "caps \<Rightarrow> string option" where
  "column_default spec =
     (if group spec ''default'' = Some ''NULL'' then None else group spec ''default'')"

definition column_comment :: "caps \<Rightarrow> string option" where
  "column_comment spec =
     map_option (\<lambda>c. replace [sq, sq] [sq] (replace [bs, bs] [bs] c)) (group spec ''comment'')"

definition column_computed :: "caps \<Rightarrow> computed option" where
  "column_computed spec =
     map_option
       (\<lambda>s. \<lparr>sqltext = s,
              persisted = map_option (\<lambda>q. q = ''STORED'') (group spec ''persistence'')\<rparr>)
       (group spec ''generated'')"

text \<open>The registry lookup with its \<open>KeyError\<close> handler.\<close>

definition resolve_type :: "dialect \<Rightarrow> string option \<Rightarrow> type_cls option" where
  "resolve_type d coltype = (case coltype of None \<Rightarrow> None | Some t \<Rightarrow> ischema_names d t)"

definition col_type_of :: "dialect \<Rightarrow> caps \<Rightarrow> type_cls" where
  "col_type_of d spec =
     (case resolve_type d (group spec ''coltype'') of None \<Rightarrow> NullType | Some c \<Rightarrow> c)"

text \<open>
  The column dictionary built from the groups of a match. The type instance is constructed
  before the other entries are computed, so an exception of the constructor leaves
  \<open>_parse_column\<close> with no column appended.
\<close>

definition column_of :: "dialect \<Rightarrow> caps \<Rightarrow> error + column" where
  "column_of d spec =
     (let col_type = col_type_of d spec;
          split = fsp_split col_type (column_type_args (group spec ''arg''))
      in (case enum_set_args col_type (fst split) (flag_kw spec (snd split)) of
            Inl e \<Rightarrow> Inl e
          | Inr akw \<Rightarrow>
              (case init_error d col_type (fst akw) (snd akw) of
                 Some e \<Rightarrow> Inl e
               | None \<Rightarrow>
                   Inr \<lparr>c_name = group spec ''name'',
                        c_type = \<lparr>t_class = col_type, t_args = fst akw, t_kw = snd akw\<rparr>,
                        c_default = column_default spec,
                        c_comment = column_comment spec,
                        c_nullable = column_nullable spec,
                        c_autoincrement = column_autoincrement spec col_type,
                        c_computed = column_computed spec\<rparr>)))"

definition column_warnings :: "dialect \<Rightarrow> string \<Rightarrow> caps \<Rightarrow> bool \<Rightarrow> warning list" where
  "column_warnings d line spec full =
     (if full then [] else [IncompleteReflection line])
     @ (case resolve_type d (group spec ''coltype'') of
          None \<Rightarrow> [UnrecognizedType (group spec ''coltype'') (group spec ''name'')]
        | Some c \<Rightarrow> [])"

definition parse_column ::
  "preparer \<Rightarrow> dialect \<Rightarrow> string \<Rightarrow> ReflectedState
     \<Rightarrow> error + (ReflectedState \<times> warning list)" where
  "parse_column p d line state =
     (case match_column p line of
        None \<Rightarrow> Inr (state, [UnknownColumnDefinition line])
      | Some sf \<Rightarrow>
          (case column_of d (fst sf) of
             Inl e \<Rightarrow> Inl e
           | Inr col \<Rightarrow>
               Inr (state\<lparr>columns := columns state @ [col]\<rparr>,
                    column_warnings d line (fst sf) (snd sf))))"

subsection \<open>\<open>_parse_constraints\<close>\<close>

datatype constraint =
    Key key_spec
  | FkConstraint fk_spec
  | CkConstraint ck_spec
  | Partition string
  | NoMatch string

definition key_parser :: "caps \<Rightarrow> string option" where
  "key_parser spec =
     (case group spec ''version_sql'' of
        None \<Rightarrow> group spec ''parser''
      | Some v \<Rightarrow>
          if v = [] then group spec ''parser''
          else (case re_match re_key_version_sql v of
                  None \<Rightarrow> group spec ''parser''
                | Some m2 \<Rightarrow>
                    if truthy (group m2 ''parser'') then group m2 ''parser''
                    else group spec ''parser''))"

definition key_of :: "preparer \<Rightarrow> caps \<Rightarrow> string option \<Rightarrow> key_spec" where
  "key_of p spec parser =
     \<lparr>k_type = group spec ''type'', k_name = group spec ''name'',
      k_using_pre = group spec ''using_pre'',
      k_columns = parse_keyexprs p (group_str spec ''columns''),
      k_using_post = group spec ''using_post'', k_keyblock = group spec ''keyblock'',
      k_parser = parser, k_comment = group spec ''comment'',
      k_version_sql = group spec ''version_sql''\<rparr>"

definition fk_of :: "preparer \<Rightarrow> caps \<Rightarrow> fk_spec" where
  "fk_of p spec =
     \<lparr>fk_name = group spec ''name'',
      fk_local = map fst (parse_keyexprs p (group_str spec ''local'')),
      fk_table = unformat_identifiers p (group_str spec ''table''),
      fk_foreign = map fst (parse_keyexprs p (group_str spec ''foreign'')),
      fk_match = group spec ''match'', fk_ondelete = group spec ''ondelete'',
      fk_onupdate = group spec ''onupdate''\<rparr>"

definition parse_constraints :: "preparer \<Rightarrow> string \<Rightarrow> error + constraint" where
  "parse_constraints p line =
     (case re_match (re_key p) line of
        Some spec \<Rightarrow>
          (case key_parser spec of
             None \<Rightarrow> Inr (Key (key_of p spec None))
           | Some prs \<Rightarrow>
               if prs = [] then Inr (Key (key_of p spec (Some prs)))
               else (case unformat_identifiers p prs of
                       [] \<Rightarrow> Inl IndexError
                     | x # xs \<Rightarrow> Inr (Key (key_of p spec (Some x)))))
      | None \<Rightarrow>
          (case re_match (re_fk_constraint p) line of
             Some spec \<Rightarrow> Inr (FkConstraint (fk_of p spec))
           | None \<Rightarrow>
               (case re_match (re_ck_constraint p) line of
                  Some spec \<Rightarrow>
                    Inr (CkConstraint
                           \<lparr>ck_name = group spec ''name'', ck_sqltext = group spec ''sqltext''\<rparr>)
                | None \<Rightarrow>
                    (case re_match re_partition line of
                       Some m \<Rightarrow> Inr (Partition line)
                     | None \<Rightarrow> Inr (NoMatch line)))))"

subsection \<open>\<open>_parse_table_name\<close> and \<open>_parse_table_options\<close>\<close>

definition parse_table_name :: "preparer \<Rightarrow> string \<Rightarrow> ReflectedState \<Rightarrow> ReflectedState" where
  "parse_table_name p line state =
     (case re_match (pr_name p) line of
        None \<Rightarrow> state
      | Some m \<Rightarrow> state\<lparr>table_name := Some (unescape_identifier p (group_str m ''name''))\<rparr>)"

text \<open>
  The loop over \<open>_pr_options\<close>: the dictionary \<open>options\<close> and \<open>rest_of_line\<close> are the
  loop's variables.
\<close>

fun scan_options ::
  "(rx \<times> (string \<Rightarrow> string) option) list \<Rightarrow> (string \<times> string) list \<Rightarrow> string
     \<Rightarrow> (string \<times> string) list \<times> string" where
  "scan_options [] options rest_of_line = (options, rest_of_line)"
| "scan_options (pr # prs) options rest_of_line =
     (case re_search (fst pr) rest_of_line of
        None \<Rightarrow> scan_options prs options rest_of_line
      | Some m \<Rightarrow>
          scan_options prs
            (AList.update (lower (group_str m ''directive''))
               (case snd pr of
                  None \<Rightarrow> group_str m ''val''
                | Some cleanup \<Rightarrow> cleanup (group_str m ''val''))
               options)
            (re_sub (fst pr) rest_of_line))"

definition nopes :: "string list" where
  "nopes = [''auto_increment'', ''data directory'', ''index directory'']"

definition parse_table_options ::
  "dialect \<Rightarrow> string \<Rightarrow> ReflectedState \<Rightarrow> ReflectedState" where
  "parse_table_options d line state =
     (let options = (if line = [] \<or> line = '')'' then []
                     else fst (scan_options pr_options [] line));
          options = foldl (\<lambda>os nope. AList.delete nope os) options nopes
      in state\<lparr>table_options :=
           foldl (\<lambda>tos ov. AList.update (d_name d @ ''_'' @ fst ov) (snd ov) tos)
                 (table_options state) options\<rparr>)"

subsection \<open>\<open>parse\<close>\<close>

definition parse_line ::
  "preparer \<Rightarrow> dialect \<Rightarrow> string \<Rightarrow> ReflectedState
     \<Rightarrow> error + (ReflectedState \<times> warning list)" where
  "parse_line p d line state =
     (if startswith line (''  '' @ [initial_quote p]) then parse_column p d line state
      else if startswith line '') '' then Inr (parse_table_options d line state, [])
      else if line = '')'' then Inr (state, [])
      else if startswith line ''CREATE '' then Inr (parse_table_name p line state, [])
      else if line = [] then Inr (state, [])
      else (case parse_constraints p line of
              Inl e \<Rightarrow> Inl e
            | Inr (NoMatch l) \<Rightarrow> Inr (state, [UnknownSchemaContent line])
            | Inr (Key spec) \<Rightarrow> Inr (state\<lparr>keys := keys state @ [spec]\<rparr>, [])
            | Inr (FkConstraint spec) \<Rightarrow>
                Inr (state\<lparr>fk_constraints := fk_constraints state @ [spec]\<rparr>, [])
            | Inr (CkConstraint spec) \<Rightarrow>
                Inr (state\<lparr>ck_constraints := ck_constraints state @ [spec]\<rparr>, [])
            | Inr (Partition l) \<Rightarrow> Inr (state, [])))"

fun parse_lines ::
  "preparer \<Rightarrow> dialect \<Rightarrow> string list \<Rightarrow> ReflectedState
     \<Rightarrow> error + (ReflectedState \<times> warning list)" where
  "parse_lines p d [] state = Inr (state, [])"
| "parse_lines p d (line # ls) state =
     (case parse_line p d line state of
        Inl e \<Rightarrow> Inl e
      | Inr sw \<Rightarrow>
          (case parse_lines p d ls (fst sw) of
             Inl e \<Rightarrow> Inl e
           | Inr sw' \<Rightarrow> Inr (fst sw', snd sw @ snd sw')))"

definition parse ::
  "preparer \<Rightarrow> dialect \<Rightarrow> string \<Rightarrow> string \<Rightarrow> error + (ReflectedState \<times> warning list)" where
  "parse p d show_create cs =
     parse_lines p d (re_split (Seq (Opt (Lit cr)) (Lit nl)) show_create) (new_state cs)"

subsection \<open>\<open>_describe_to_create\<close>\<close>

text \<open>
  A row is a \<open>DESCRIBE\<close> 6-tuple (Field, Type, Null, Key, Default, Extra). The text cells
  are strings; \<open>Default\<close> and \<open>Extra\<close> may be \<open>None\<close>; the \<open>Null\<close> cell is only tested
  for truth, so it is kept as a Python value.
\<close>

record describe_row =
  r_name :: string
  r_col_type :: string
  r_nullable :: pyval
  r_key :: pyval
  r_default :: "string option"
  r_extra :: "string option"

fun py_true :: "pyval \<Rightarrow> bool" where
  "py_true PyNone = False"
| "py_true (PyBool b) = b"
| "py_true (PyInt i) = (i \<noteq> 0)"
| "py_true (PyStr s) = (s \<noteq> [])"

fun contains :: "string \<Rightarrow> string \<Rightarrow> bool" where
  "contains [] sub = (sub = [])"
| "contains (c # cs) sub = (startswith (c # cs) sub \<or> contains cs sub)"

fun join :: "string \<Rightarrow> string list \<Rightarrow> string" where
  "join sep [] = []"
| "join sep [x] = x"
| "join sep (x # y # ys) = x @ sep @ join sep (y # ys)"

definition describe_default :: "string \<Rightarrow> string option \<Rightarrow> string list" where
  "describe_default col_type dflt_cell =
     (case dflt_cell of
        None \<Rightarrow> []
      | Some dflt \<Rightarrow>
          if dflt = [] then []
          else if contains dflt ''auto_increment'' then []
          else if startswith col_type ''timestamp'' \<and> startswith dflt ''C''
          then [''DEFAULT'', dflt]
          else if dflt = ''NULL'' then [''DEFAULT'', dflt]
          else [''DEFAULT'', [sq] @ replace [sq] [sq, sq] dflt @ [sq]])"

definition describe_line :: "preparer \<Rightarrow> describe_row \<Rightarrow> string" where
  "describe_line p row =
     join '' ''
       (['' '', quote_identifier p (r_name row), r_col_type row]
        @ (if \<not> py_true (r_nullable row) then [''NOT NULL''] else [])
        @ describe_default (r_col_type row) (r_default row)
        @ (case r_extra row of None \<Rightarrow> [] | Some e \<Rightarrow> if e = [] then [] else [e]))"

definition describe_to_create :: "preparer \<Rightarrow> string \<Rightarrow> describe_row list \<Rightarrow> string" where
  "describe_to_create p tname rows =
     ''CREATE TABLE '' @ quote_identifier p tname @ '' ('' @ [nl]
     @ join ('','' @ [nl]) (map (describe_line p) rows)
     @ [nl] @ '') ''"

section \<open>Notions used to state the properties\<close>

text \<open>
  \<open>within st st'\<close>: the state \<open>st'\<close> can come from matching at \<open>st\<close>. The text that
  remains is a suffix of the text the match started on, and every group that is set holds
  a piece of that text (or was set before).
\<close>

definition within :: "mstate \<Rightarrow> mstate \<Rightarrow> bool" where
  "within st st' \<longleftrightarrow>
     (\<exists>w. rest_of st = w @ rest_of st') \<and>
     (\<forall>g v. (g, v) \<in> set (caps_of st') \<longrightarrow>
        (g, v) \<in> set (caps_of st) \<or> (\<exists>a b. rest_of st = a @ v @ b))"

text \<open>
  \<open>sets_group g r\<close>: by its form, the pattern \<open>r\<close> sets the group \<open>g\<close> in every match.
\<close>

fun sets_group :: "string \<Rightarrow> rx \<Rightarrow> bool" where
  "sets_group g (Grp h r) = (h = g \<or> sets_group g r)"
| "sets_group g (Seq r1 r2) = (sets_group g r1 \<or> sets_group g r2)"
| "sets_group g (Alt r1 r2) = (sets_group g r1 \<and> sets_group g r2)"
| "sets_group g r = False"

text \<open>
  The quoted literals in the argument text of a column type, as \<open>_parse_column\<close> finds
  them, and a literal without its surrounding quotes and with doubled quotes undoubled.
  \<open>undouble\<close> is written by recursion on the text, independently of \<open>replace\<close>: read
  from the left, each pair of adjacent quotes becomes one quote, and every other character
  stays.
\<close>

definition quoted_literals :: "string option \<Rightarrow> string list" where
  "quoted_literals args =
     (case args of
        None \<Rightarrow> []
      | Some a \<Rightarrow> if a \<noteq> [] \<and> hd a = sq \<and> last a = sq then re_findall re_csv_str a else [])"

fun undouble :: "string \<Rightarrow> string" where
  "undouble (a # b # s) = (if a = sq \<and> b = sq then sq # undouble s else a # undouble (b # s))"
| "undouble s = s"

definition dequote :: "string \<Rightarrow> string" where
  "dequote x = undouble (butlast (tl x))"

text \<open>
  The dictionary \<open>options\<close> of \<open>_parse_table_options\<close> when its loop over the patterns
  has ended and before the three transient keys are popped.
\<close>

definition options_found :: "string \<Rightarrow> (string \<times> string) list" where
  "options_found line =
     (if line = [] \<or> line = '')'' then [] else fst (scan_options pr_options [] line))"




section \<open>An example configuration\<close>

text \<open>
  Modelled from the spec: the identifier preparer and the type registry
  \<open>dialect.ischema_names\<close>, which are not among the sources of the parser. The general
  theorems below hold for every preparer and dialect; to evaluate the parser on concrete
  lines they are instantiated with the configuration of this section. The preparer quotes
  with the backquote and doubles a backquote inside an identifier (the specification's
  backtick quoting); \<open>unformat_identifiers\<close> splits a dotted, possibly quoted identifier
  into its parts. The registry maps a type-name token, without regard to case, to a class
  that derives from the families the parser asks about. The constructors of the classes of
  the registry are taken to accept the arguments they are given; \<open>NullType\<close>, whose
  constructor has no parameter, raises \<open>TypeError\<close> when it is given any.
\<close>

definition example_identifiers :: rx where
  "example_identifiers =
     Plus (Seqs [Alt (Seqs [Lit bq, Grp ''a'' (Plus (Alt (Str [bq, bq]) (Atom (NotIn [CChar bq])))),
                            Lit bq])
                     (Grp ''b'' (Plus (Atom (NotIn [CChar CHR ''.''])))),
                 Ahead (Alt (Lit CHR ''.'') Eol)])"

definition example_preparer :: preparer where
  "example_preparer =
     \<lparr>initial_quote = bq, final_quote = bq,
      escape_identifier = replace [bq] [bq, bq],
      unescape_identifier = replace [bq, bq] [bq],
      quote_identifier = (\<lambda>v. [bq] @ replace [bq] [bq, bq] v @ [bq]),
      unformat_identifiers =
        (\<lambda>s. map (\<lambda>res. replace [bq, bq] [bq]
                         (if truthy (group (snd res) ''a'') then group_str (snd res) ''a''
                          else group_str (snd res) ''b''))
                 (re_finditer_at example_identifiers True s))\<rparr>"

definition example_types :: "(string \<times> type_cls) list" where
  "example_types =
     [(''int'', \<lparr>cls_name = ''INTEGER'', bases = [Integer]\<rparr>),
      (''bigint'', \<lparr>cls_name = ''BIGINT'', bases = [Integer]\<rparr>),
      (''varchar'', \<lparr>cls_name = ''VARCHAR'', bases = []\<rparr>),
      (''datetime'', \<lparr>cls_name = ''DATETIME'', bases = [DATETIME]\<rparr>),
      (''time'', \<lparr>cls_name = ''TIME'', bases = [TIME]\<rparr>),
      (''timestamp'', \<lparr>cls_name = ''TIMESTAMP'', bases = [TIMESTAMP]\<rparr>),
      (''enum'', \<lparr>cls_name = ''ENUM'', bases = [ENUM]\<rparr>),
      (''set'', \<lparr>cls_name = ''SET'', bases = [SET]\<rparr>)]"

definition example_init_error ::
  "type_cls \<Rightarrow> pyval list \<Rightarrow> (string \<times> pyval) list \<Rightarrow> error option" where
  "example_init_error c args kw =
     (if cls_name c = ''NullType'' \<and> (args \<noteq> [] \<or> kw \<noteq> []) then Some TypeError else None)"

definition example_dialect :: dialect where
  "example_dialect =
     \<lparr>d_name = ''mysql'', ischema_names = (\<lambda>t. map_of example_types (lower t)),
      init_error = example_init_error\<rparr>"

subsection \<open>Example lines and what the parser returns for them\<close>

definition line_id :: string where
  "line_id = ''  '' @ [bq] @ ''id'' @ [bq] @ '' int NOT NULL AUTO_INCREMENT,''"

definition spec_id :: caps where
  "spec_id = [(''autoincr'', ''AUTO_INCREMENT''), (''notnull'', ''NOT NULL''),
              (''coltype'', ''int''), (''name'', ''id'')]"

definition INTEGER :: type_cls where
  "INTEGER = \<lparr>cls_name = ''INTEGER'', bases = [Integer]\<rparr>"

definition VARCHAR :: type_cls where
  "VARCHAR = \<lparr>cls_name = ''VARCHAR'', bases = []\<rparr>"

definition column_id :: column where
  "column_id =
     \<lparr>c_name = Some ''id'', c_type = \<lparr>t_class = INTEGER, t_args = [], t_kw = []\<rparr>,
      c_default = None, c_comment = None, c_nullable = False,
      c_autoincrement = Some True, c_computed = None\<rparr>"

definition line_n :: string where
  "line_n = ''  '' @ [bq] @ ''n'' @ [bq] @ '' int''"

definition spec_n :: caps where
  "spec_n = [(''coltype'', ''int''), (''name'', ''n'')]"

definition column_n :: column where
  "column_n =
     \<lparr>c_name = Some ''n'', c_type = \<lparr>t_class = INTEGER, t_args = [], t_kw = []\<rparr>,
      c_default = None, c_comment = None, c_nullable = True,
      c_autoincrement = Some False, c_computed = None\<rparr>"

definition line_v :: string where
  "line_v = ''  '' @ [bq] @ ''v'' @ [bq] @ '' varchar(8) NULL''"

definition spec_v :: caps where
  "spec_v = [(''notnull'', ''NULL''), (''arg'', ''8''), (''coltype'', ''varchar''),
             (''name'', ''v'')]"

definition column_v :: column where
  "column_v =
     \<lparr>c_name = Some ''v'', c_type = \<lparr>t_class = VARCHAR, t_args = [PyInt 8], t_kw = []\<rparr>,
      c_default = None, c_comment = None, c_nullable = True,
      c_autoincrement = None, c_computed = None\<rparr>"

definition line_ts :: string where
  "line_ts = ''  '' @ [bq] @ ''col'' @ [bq] @ '' TIMESTAMP(3)''"

definition spec_ts :: caps where
  "spec_ts = [(''arg'', ''3''), (''coltype'', ''TIMESTAMP''), (''name'', ''col'')]"

definition column_ts :: column where
  "column_ts =
     \<lparr>c_name = Some ''col'',
      c_type = \<lparr>t_class = \<lparr>cls_name = ''TIMESTAMP'', bases = [TIMESTAMP]\<rparr>,
                t_args = [], t_kw = [(''fsp'', PyInt 3)]\<rparr>,
      c_default = None, c_comment = None, c_nullable = True,
      c_autoincrement = None, c_computed = None\<rparr>"

definition line_set_empty :: string where
  "line_set_empty =
     ''  '' @ [bq] @ ''col'' @ [bq] @ '' SET('' @ [sq] @ ''a'' @ [sq] @ '','' @ [sq, sq] @ '',''
       @ [sq] @ ''b'' @ [sq] @ '')''"

definition spec_set_empty :: caps where
  "spec_set_empty =
     [(''arg'', [sq] @ ''a'' @ [sq] @ '','' @ [sq, sq] @ '','' @ [sq] @ ''b'' @ [sq]),
      (''coltype'', ''SET''), (''name'', ''col'')]"

definition SET_cls :: type_cls where
  "SET_cls = \<lparr>cls_name = ''SET'', bases = [SET]\<rparr>"

definition column_set_empty :: column where
  "column_set_empty =
     \<lparr>c_name = Some ''col'',
      c_type = \<lparr>t_class = SET_cls, t_args = [PyStr ''a'', PyStr [], PyStr ''b''],
                t_kw = [(''retrieve_as_bitwise'', PyBool True)]\<rparr>,
      c_default = None, c_comment = None, c_nullable = True,
      c_autoincrement = None, c_computed = None\<rparr>"

definition line_set :: string where
  "line_set =
     ''  '' @ [bq] @ ''col'' @ [bq] @ '' SET('' @ [sq] @ ''it'' @ [sq, sq] @ ''s'' @ [sq] @ '',''
       @ [sq] @ ''b'' @ [sq] @ '')''"

definition spec_set :: caps where
  "spec_set =
     [(''arg'', [sq] @ ''it'' @ [sq, sq] @ ''s'' @ [sq] @ '','' @ [sq] @ ''b'' @ [sq]),
      (''coltype'', ''SET''), (''name'', ''col'')]"

definition column_set :: column where
  "column_set =
     \<lparr>c_name = Some ''col'',
      c_type = \<lparr>t_class = SET_cls, t_args = [PyStr (''it'' @ [sq] @ ''s''), PyStr ''b''],
                t_kw = []\<rparr>,
      c_default = None, c_comment = None, c_nullable = True,
      c_autoincrement = None, c_computed = None\<rparr>"

definition line_bad_header :: string where
  "line_bad_header = ''CREATE TABLE t (''"

definition line_header :: string where
  "line_header = ''CREATE TABLE '' @ [bq] @ ''a'' @ [bq, bq] @ ''b'' @ [bq] @ '' (''"

definition opt_engine :: string where "opt_engine = ''ENGINE=InnoDB''"

definition opt_charset :: string where "opt_charset = ''DEFAULT CHARSET=utf8''"

definition opt_comment :: string where "opt_comment = ''COMMENT='' @ [sq] @ ''hi'' @ [sq]"

definition option_orders :: "string list" where
  "option_orders =
     map (\<lambda>ds. '') '' @ join '' '' ds)
       [[opt_engine, opt_charset, opt_comment], [opt_engine, opt_comment, opt_charset],
        [opt_charset, opt_engine, opt_comment], [opt_charset, opt_comment, opt_engine],
        [opt_comment, opt_engine, opt_charset], [opt_comment, opt_charset, opt_engine]]"

definition line_autoinc :: string where
  "line_autoinc = '') ENGINE=InnoDB AUTO_INCREMENT=5 DEFAULT CHARSET=utf8 DATA DIRECTORY=''
     @ [sq] @ ''/d'' @ [sq] @ '' INDEX DIRECTORY='' @ [sq] @ ''/i'' @ [sq]"


definition line_partition :: string where
  "line_partition = '' PARTITION BY HASH (id)''"

definition text_enum_int :: string where
  "text_enum_int = ''  '' @ [bq] @ ''a'' @ [bq] @ '' enum(3)'' @ [nl] @ ''junk''"

definition line_unknown_arg :: string where
  "line_unknown_arg = ''  '' @ [bq] @ ''x'' @ [bq] @ '' foo(3)''"

definition row_id :: describe_row where
  "row_id =
     \<lparr>r_name = ''id'', r_col_type = ''int(11)'', r_nullable = PyStr ''NO'',
      r_key = PyStr ''PRI'', r_default = None, r_extra = Some ''auto_increment''\<rparr>"

definition row_flag :: describe_row where
  "row_flag =
     \<lparr>r_name = ''id'', r_col_type = ''int(11)'', r_nullable = PyBool False,
      r_key = PyStr ''PRI'', r_default = None, r_extra = Some ''auto_increment''\<rparr>"

definition row_quote :: describe_row where
  "row_quote =
     \<lparr>r_name = ''a'' @ [bq] @ ''b'', r_col_type = ''varchar(8)'', r_nullable = PyStr ''YES'',
      r_key = PyStr [], r_default = Some ''x'', r_extra = Some []\<rparr>"

definition column_id_described :: "bool \<Rightarrow> column" where
  "column_id_described nullable =
     \<lparr>c_name = Some ''id'',
      c_type = \<lparr>t_class = INTEGER, t_args = [PyInt 11], t_kw = []\<rparr>,
      c_default = None, c_comment = None, c_nullable = nullable,
      c_autoincrement = Some True, c_computed = None\<rparr>"

section \<open>Evaluation of the character functions\<close>

text \<open>The same functions by the bits of the character, for evaluation.\<close>

lemma lower_chr_code [code]:
  "lower_chr (Char b0 b1 b2 b3 b4 b5 b6 b7) =
     (if b6 \<and> \<not> b5 \<and>
         ((\<not> b7 \<and> (b0 \<or> b1 \<or> b2 \<or> b3 \<or> b4) \<and> \<not> (b4 \<and> b3 \<and> (b2 \<or> (b1 \<and> b0))))
          \<or> (b7 \<and> \<not> (b4 \<and> b2 \<and> b1 \<and> b0)))
      then Char b0 b1 b2 b3 b4 True b6 b7
      else Char b0 b1 b2 b3 b4 b5 b6 b7)"
  by (cases b0; cases b1; cases b2; cases b3; cases b4; cases b5; cases b6; cases b7;
      simp add: lower_chr_def; code_simp)

lemma is_digit_code [code]:
  "is_digit (Char b0 b1 b2 b3 b4 b5 b6 b7) =
     (\<not> b7 \<and> \<not> b6 \<and> b5 \<and> b4 \<and> \<not> (b3 \<and> (b2 \<or> b1)))"
  by (cases b0; cases b1; cases b2; cases b3; cases b4; cases b5; cases b6; cases b7;
      simp add: is_digit_def)

lemma is_space_code [code]:
  "is_space (Char b0 b1 b2 b3 b4 b5 b6 b7) =
     ((\<not> b7 \<and> \<not> b6 \<and> \<not> b5 \<and> \<not> b4 \<and> b3 \<and> ((\<not> b2 \<and> (b0 \<or> b1)) \<or> (b2 \<and> \<not> b1)))
      \<or> (\<not> b7 \<and> \<not> b6 \<and> \<not> b5 \<and> b4 \<and> b3 \<and> b2)
      \<or> (\<not> b7 \<and> \<not> b6 \<and> b5 \<and> \<not> b4 \<and> \<not> b3 \<and> \<not> b2 \<and> \<not> b1 \<and> \<not> b0)
      \<or> (b7 \<and> \<not> b6 \<and> \<not> b5 \<and> \<not> b4 \<and> \<not> b3 \<and> b2 \<and> \<not> b1 \<and> b0)
      \<or> (b7 \<and> \<not> b6 \<and> b5 \<and> \<not> b4 \<and> \<not> b3 \<and> \<not> b2 \<and> \<not> b1 \<and> \<not> b0))"
  by (cases b0; cases b1; cases b2; cases b3; cases b4; cases b5; cases b6; cases b7;
      simp add: is_space_def)

lemma is_word_code [code]:
  "is_word (Char b0 b1 b2 b3 b4 b5 b6 b7) =
     (if b7 then
        (if b6 then \<not> (b4 \<and> \<not> b3 \<and> b2 \<and> b1 \<and> b0)
         else b5 \<and> ((\<not> b4 \<and> b3 \<and> \<not> b2 \<and> b1 \<and> \<not> b0)
                   \<or> (b4 \<and> \<not> b3 \<and> \<not> b2 \<and> b1)
                   \<or> (b4 \<and> \<not> b3 \<and> b2 \<and> \<not> b1 \<and> b0)
                   \<or> (b4 \<and> b3 \<and> \<not> b2 \<and> (b1 \<noteq> b0))
                   \<or> (b4 \<and> b3 \<and> b2 \<and> \<not> (b1 \<and> b0))))
      else
        (if b6 then
           ((b0 \<or> b1 \<or> b2 \<or> b3 \<or> b4) \<and> \<not> (b4 \<and> b3 \<and> (b2 \<or> (b1 \<and> b0))))
           \<or> (\<not> b5 \<and> b4 \<and> b3 \<and> b2 \<and> b1 \<and> b0)
         else b5 \<and> b4 \<and> \<not> (b3 \<and> (b2 \<or> b1))))"
  by (cases b0; cases b1; cases b2; cases b3; cases b4; cases b5; cases b6; cases b7;
      simp add: is_word_def)

section \<open>Facts about the matcher\<close>

lemma within_refl: "within st st"
  by (auto simp: within_def)

lemma within_trans:
  assumes "within st st'" and "within st' st''"
  shows "within st st''"
proof -
  from assms(1) obtain w where w: "rest_of st = w @ rest_of st'"
    by (auto simp: within_def)
  from assms(2) obtain w' where w': "rest_of st' = w' @ rest_of st''"
    by (auto simp: within_def)
  have "\<exists>w. rest_of st = w @ rest_of st''"
    using w w' by (intro exI[of _ "w @ w'"]) simp
  moreover have "(g, v) \<in> set (caps_of st) \<or> (\<exists>a b. rest_of st = a @ v @ b)"
    if gv: "(g, v) \<in> set (caps_of st'')" for g v
  proof -
    from assms(2) gv have "(g, v) \<in> set (caps_of st') \<or> (\<exists>a b. rest_of st' = a @ v @ b)"
      by (auto simp: within_def)
    then show ?thesis
    proof
      assume "(g, v) \<in> set (caps_of st')"
      with assms(1) show ?thesis by (auto simp: within_def)
    next
      assume "\<exists>a b. rest_of st' = a @ v @ b"
      then obtain a b where "rest_of st' = a @ v @ b" by blast
      with w have "rest_of st = (w @ a) @ v @ b" by simp
      then show ?thesis by blast
    qed
  qed
  ultimately show ?thesis by (auto simp: within_def)
qed

lemma star_within:
  assumes f: "\<And>st st'. st' \<in> set (f st) \<Longrightarrow> within st st'"
  shows "st' \<in> set (star f n st) \<Longrightarrow> within st st'"
proof (induction n arbitrary: st)
  case 0
  then show ?case by (simp add: within_refl)
next
  case (Suc n)
  from Suc.prems have "st' = st \<or> (\<exists>x \<in> set (f st). st' \<in> set (star f n x))"
    by (auto split: if_splits)
  then show ?case
  proof
    assume "st' = st"
    then show ?thesis by (simp add: within_refl)
  next
    assume "\<exists>x \<in> set (f st). st' \<in> set (star f n x)"
    then obtain x where "x \<in> set (f st)" and "st' \<in> set (star f n x)" by blast
    then have "within st x" and "within x st'" using f Suc.IH by blast+
    then show ?thesis by (rule within_trans)
  qed
qed

lemma lazy_star_within:
  assumes f: "\<And>st st'. st' \<in> set (f st) \<Longrightarrow> within st st'"
  shows "st' \<in> set (lazy_star f n st) \<Longrightarrow> within st st'"
proof (induction n arbitrary: st)
  case 0
  then show ?case by (simp add: within_refl)
next
  case (Suc n)
  from Suc.prems have "st' = st \<or> (\<exists>x \<in> set (f st). st' \<in> set (lazy_star f n x))"
    by (auto split: if_splits)
  then show ?case
  proof
    assume "st' = st"
    then show ?thesis by (simp add: within_refl)
  next
    assume "\<exists>x \<in> set (f st). st' \<in> set (lazy_star f n x)"
    then obtain x where "x \<in> set (f st)" and "st' \<in> set (lazy_star f n x)" by blast
    then have "within st x" and "within x st'" using f Suc.IH by blast+
    then show ?thesis by (rule within_trans)
  qed
qed

lemma run_within: "st' \<in> set (run r st) \<Longrightarrow> within st st'"
proof (induction r arbitrary: st st')
  case Eps
  then show ?case by (simp add: within_refl)
next
  case (Atom a)
  show ?case
  proof (cases "rest_of st")
    case Nil
    with Atom show ?thesis by simp
  next
    case (Cons c cs)
    with Atom have st': "st' = (False, cs, caps_of st)"
      by (auto split: if_splits)
    have "rest_of st = [c] @ rest_of st'"
      using Cons st' by (simp add: rest_of_def)
    then have "\<exists>w. rest_of st = w @ rest_of st'" by blast
    then show ?thesis
      using st' by (simp add: within_def caps_of_def)
  qed
next
  case (Seq r1 r2)
  from Seq.prems obtain x where "x \<in> set (run r1 st)" and "st' \<in> set (run r2 x)"
    by auto
  then have "within st x" and "within x st'" using Seq.IH by blast+
  then show ?case by (rule within_trans)
next
  case (Alt r1 r2)
  from Alt.prems have "st' \<in> set (run r1 st) \<or> st' \<in> set (run r2 st)" by simp
  then show ?case using Alt.IH by blast
next
  case (Star r)
  then show ?case using star_within[of "run r"] by simp
next
  case (LazyStar r)
  then show ?case using lazy_star_within[of "run r"] by simp
next
  case (Grp g r)
  from Grp.prems obtain x where x: "x \<in> set (run r st)"
    and st': "st' = (fst x, rest_of x,
       (g, take (length (rest_of st) - length (rest_of x)) (rest_of st)) # caps_of x)"
    by auto
  from Grp.IH[OF x] have wx: "within st x" .
  then obtain w where w: "rest_of st = w @ rest_of x" by (auto simp: within_def)
  have tk: "take (length (rest_of st) - length (rest_of x)) (rest_of st) = w"
    using w by simp
  show ?case
    unfolding within_def
  proof (intro conjI allI impI)
    show "\<exists>w. rest_of st = w @ rest_of st'"
      using w st' by (simp add: rest_of_def)
  next
    fix h v assume "(h, v) \<in> set (caps_of st')"
    then have "(h, v) = (g, w) \<or> (h, v) \<in> set (caps_of x)"
      using st' tk by (auto simp: caps_of_def)
    then show "(h, v) \<in> set (caps_of st) \<or> (\<exists>a b. rest_of st = a @ v @ b)"
    proof
      assume "(h, v) = (g, w)"
      then have "rest_of st = [] @ v @ rest_of x" using w by simp
      then show ?thesis by blast
    next
      assume "(h, v) \<in> set (caps_of x)"
      with wx show ?thesis by (auto simp: within_def)
    qed
  qed
next
  case Bol
  then show ?case by (auto simp: within_refl split: if_splits)
next
  case Eol
  then show ?case by (auto simp: within_refl split: if_splits)
next
  case (Ahead r)
  then show ?case by (auto simp: within_refl split: if_splits)
next
  case (NotAhead r)
  then show ?case by (auto simp: within_refl split: if_splits)
qed

lemma re_match_substring:
  assumes "re_match r s = Some m" and "group m g = Some v"
  shows "\<exists>a b. s = a @ v @ b"
proof -
  from assms(1) obtain st sts where run: "run r (True, s, []) = st # sts" and m: "m = caps_of st"
    by (auto simp: re_match_def re_match_at_def split: list.splits)
  then have "st \<in> set (run r (True, s, []))" by simp
  then have "within (True, s, []) st" by (rule run_within)
  moreover have "(g, v) \<in> set (caps_of st)"
    using assms(2) m by (auto simp: group_def dest: map_of_SomeD)
  ultimately show ?thesis by (auto simp: within_def rest_of_def caps_of_def)
qed

lemma star_keeps:
  assumes f: "\<And>st st'. st' \<in> set (f st) \<Longrightarrow> map_of (caps_of st) g \<noteq> None
                \<Longrightarrow> map_of (caps_of st') g \<noteq> None"
  shows "st' \<in> set (star f n st) \<Longrightarrow> map_of (caps_of st) g \<noteq> None
           \<Longrightarrow> map_of (caps_of st') g \<noteq> None"
proof (induction n arbitrary: st)
  case 0
  then show ?case by simp
next
  case (Suc n)
  from Suc.prems(1) have "st' = st \<or> (\<exists>x \<in> set (f st). st' \<in> set (star f n x))"
    by (auto split: if_splits)
  then show ?case
  proof
    assume "st' = st"
    with Suc.prems(2) show ?thesis by simp
  next
    assume "\<exists>x \<in> set (f st). st' \<in> set (star f n x)"
    then obtain x where x: "x \<in> set (f st)" and s: "st' \<in> set (star f n x)" by blast
    from f[OF x Suc.prems(2)] have "map_of (caps_of x) g \<noteq> None" .
    from Suc.IH[OF s this] show ?thesis .
  qed
qed

lemma lazy_star_keeps:
  assumes f: "\<And>st st'. st' \<in> set (f st) \<Longrightarrow> map_of (caps_of st) g \<noteq> None
                \<Longrightarrow> map_of (caps_of st') g \<noteq> None"
  shows "st' \<in> set (lazy_star f n st) \<Longrightarrow> map_of (caps_of st) g \<noteq> None
           \<Longrightarrow> map_of (caps_of st') g \<noteq> None"
proof (induction n arbitrary: st)
  case 0
  then show ?case by simp
next
  case (Suc n)
  from Suc.prems(1) have "st' = st \<or> (\<exists>x \<in> set (f st). st' \<in> set (lazy_star f n x))"
    by (auto split: if_splits)
  then show ?case
  proof
    assume "st' = st"
    with Suc.prems(2) show ?thesis by simp
  next
    assume "\<exists>x \<in> set (f st). st' \<in> set (lazy_star f n x)"
    then obtain x where x: "x \<in> set (f st)" and s: "st' \<in> set (lazy_star f n x)" by blast
    from f[OF x Suc.prems(2)] have "map_of (caps_of x) g \<noteq> None" .
    from Suc.IH[OF s this] show ?thesis .
  qed
qed

lemma run_keeps:
  "st' \<in> set (run r st) \<Longrightarrow> map_of (caps_of st) g \<noteq> None \<Longrightarrow> map_of (caps_of st') g \<noteq> None"
proof (induction r arbitrary: st st')
  case Eps
  then show ?case by simp
next
  case (Atom a)
  then show ?case
    by (cases "rest_of st") (auto simp: caps_of_def split: if_splits)
next
  case (Seq r1 r2)
  from Seq.prems(1) obtain x where x: "x \<in> set (run r1 st)" and s: "st' \<in> set (run r2 x)"
    by auto
  from Seq.IH(1)[OF x Seq.prems(2)] have "map_of (caps_of x) g \<noteq> None" .
  from Seq.IH(2)[OF s this] show ?case .
next
  case (Alt r1 r2)
  from Alt.prems(1) have "st' \<in> set (run r1 st) \<or> st' \<in> set (run r2 st)" by simp
  then show ?case using Alt.IH Alt.prems(2) by blast
next
  case (Star r)
  from Star.prems(1) have s: "st' \<in> set (star (run r) (length (rest_of st)) st)" by simp
  show ?case by (rule star_keeps[OF Star.IH s Star.prems(2)])
next
  case (LazyStar r)
  from LazyStar.prems(1) have s: "st' \<in> set (lazy_star (run r) (length (rest_of st)) st)"
    by simp
  show ?case by (rule lazy_star_keeps[OF LazyStar.IH s LazyStar.prems(2)])
next
  case (Grp h r)
  from Grp.prems(1) obtain x where x: "x \<in> set (run r st)"
    and st': "caps_of st' = (h, take (length (rest_of st) - length (rest_of x)) (rest_of st)) # caps_of x"
    by (auto simp: caps_of_def)
  from Grp.IH[OF x Grp.prems(2)] have "map_of (caps_of x) g \<noteq> None" .
  with st' show ?case by simp
next
  case Bol
  then show ?case by (simp split: if_splits)
next
  case Eol
  then show ?case by (simp split: if_splits)
next
  case (Ahead r)
  then show ?case by (simp split: if_splits)
next
  case (NotAhead r)
  then show ?case by (simp split: if_splits)
qed

lemma sets_group_sound:
  "sets_group g r \<Longrightarrow> st' \<in> set (run r st) \<Longrightarrow> map_of (caps_of st') g \<noteq> None"
proof (induction r arbitrary: st st')
  case (Seq r1 r2)
  from Seq.prems(2) obtain x where x: "x \<in> set (run r1 st)" and s: "st' \<in> set (run r2 x)"
    by auto
  from Seq.prems(1) have "sets_group g r1 \<or> sets_group g r2" by simp
  then show ?case
  proof
    assume "sets_group g r1"
    from Seq.IH(1)[OF this x] have "map_of (caps_of x) g \<noteq> None" .
    from run_keeps[OF s this] show ?thesis .
  next
    assume "sets_group g r2"
    from Seq.IH(2)[OF this s] show ?thesis .
  qed
next
  case (Alt r1 r2)
  from Alt.prems(1) have g1: "sets_group g r1" and g2: "sets_group g r2" by simp_all
  from Alt.prems(2) have "st' \<in> set (run r1 st) \<or> st' \<in> set (run r2 st)" by simp
  then show ?case
  proof
    assume "st' \<in> set (run r1 st)"
    from Alt.IH(1)[OF g1 this] show ?thesis .
  next
    assume "st' \<in> set (run r2 st)"
    from Alt.IH(2)[OF g2 this] show ?thesis .
  qed
next
  case (Grp h r)
  from Grp.prems(2) obtain x where x: "x \<in> set (run r st)"
    and st': "caps_of st' = (h, take (length (rest_of st) - length (rest_of x)) (rest_of st)) # caps_of x"
    by (auto simp: caps_of_def)
  show ?case
  proof (cases "h = g")
    case True
    with st' show ?thesis by simp
  next
    case False
    with Grp.prems(1) have "sets_group g r" by simp
    from Grp.IH[OF this x] st' show ?thesis by simp
  qed
qed simp_all

lemma re_match_at_sets:
  assumes "sets_group g r" and "re_match_at r b s = Some res"
  shows "group (snd res) g \<noteq> None"
proof -
  from assms(2) obtain st sts where r: "run r (b, s, []) = st # sts" and res: "snd res = caps_of st"
    by (auto simp: re_match_at_def split: list.splits)
  from r have "st \<in> set (run r (b, s, []))" by simp
  from sets_group_sound[OF assms(1) this] res show ?thesis by (simp add: group_def)
qed

text \<open>
  The groups that the parser reads with \<open>group_str\<close> are set by every match of their
  pattern.
\<close>

lemma required_groups:
  "list_all (\<lambda>pr. sets_group ''directive'' (fst pr) \<and> sets_group ''val'' (fst pr)) pr_options"
  "sets_group ''name'' (pr_name p)"
  "sets_group ''columns'' (re_key p)"
  "sets_group ''local'' (re_fk_constraint p) \<and> sets_group ''table'' (re_fk_constraint p)
     \<and> sets_group ''foreign'' (re_fk_constraint p)"
  "sets_group ''1'' (re_keyexprs p)"
  by (simp_all add: pr_options_def add_option_string_def add_option_word_def
        add_option_regex_def options_of_type_string_def options_of_type_word_def
        pr_name_def re_key_def re_fk_constraint_def re_keyexprs_def quoted_def
        Seqs_def Plus_def LazyPlus_def Opt_def)

section \<open>Columns\<close>

lemma parse_column_emits:
  assumes "match_column p line = Some (spec, full)"
    and "parse_column p d line st = Inr (st', ws)"
  shows "\<exists>col. column_of d spec = Inr col \<and> columns st' = columns st @ [col]"
  using assms by (auto simp: parse_column_def split: sum.splits)

lemma column_of_fields:
  assumes "column_of d spec = Inr col"
  shows "t_class (c_type col) = col_type_of d spec"
    and "c_nullable col = column_nullable spec"
    and "c_autoincrement col = column_autoincrement spec (col_type_of d spec)"
    and "enum_set_args (col_type_of d spec)
           (fst (fsp_split (col_type_of d spec) (column_type_args (group spec ''arg''))))
           (flag_kw spec (snd (fsp_split (col_type_of d spec)
                                  (column_type_args (group spec ''arg'')))))
         = Inr (t_args (c_type col), t_kw (c_type col))"
  using assms by (auto simp: column_of_def Let_def split: sum.splits option.splits)

text \<open>
  C6. A column that \<open>_parse_column\<close> emits has \<open>autoincrement\<close> true when the
  \<open>autoincr\<close> group of the match holds the marker, false when it does not and the
  resolved type derives from \<open>Integer\<close>, and no \<open>autoincrement\<close> entry otherwise.
\<close>

theorem autoincrement_three_valued:
  assumes "match_column p line = Some (spec, full)"
    and "parse_column p d line st = Inr (st', ws)"
  shows "\<exists>col. columns st' = columns st @ [col] \<and>
           c_autoincrement col =
             (if truthy (group spec ''autoincr'') then Some True
              else if issubclass (t_class (c_type col)) [Integer] then Some False
              else None)"
proof -
  from parse_column_emits[OF assms] obtain col
    where col: "column_of d spec = Inr col" and cols: "columns st' = columns st @ [col]"
    by blast
  from column_of_fields(1,3)[OF col] cols show ?thesis
    by (auto simp: column_autoincrement_def)
qed

lemma match_line_id: "match_column example_preparer line_id = Some (spec_id, True)"
  by code_simp

lemma parse_line_id:
  "parse_column example_preparer example_dialect line_id (new_state [])
     = Inr ((new_state [])\<lparr>columns := [column_id]\<rparr>, [])"
  by code_simp

lemma match_line_n: "match_column example_preparer line_n = Some (spec_n, True)"
  by code_simp

lemma parse_line_n:
  "parse_column example_preparer example_dialect line_n (new_state [])
     = Inr ((new_state [])\<lparr>columns := [column_n]\<rparr>, [])"
  by code_simp

lemma match_line_v: "match_column example_preparer line_v = Some (spec_v, True)"
  by code_simp

lemma parse_line_v:
  "parse_column example_preparer example_dialect line_v (new_state [])
     = Inr ((new_state [])\<lparr>columns := [column_v]\<rparr>, [])"
  by code_simp

theorem autoincrement_three_valued_witness:
  "match_column example_preparer line_id = Some (spec_id, True)
   \<and> parse_column example_preparer example_dialect line_id (new_state [])
        = Inr ((new_state [])\<lparr>columns := [column_id]\<rparr>, [])
   \<and> truthy (group spec_id ''autoincr'') \<and> c_autoincrement column_id = Some True
   \<and> match_column example_preparer line_n = Some (spec_n, True)
   \<and> parse_column example_preparer example_dialect line_n (new_state [])
        = Inr ((new_state [])\<lparr>columns := [column_n]\<rparr>, [])
   \<and> \<not> truthy (group spec_n ''autoincr'') \<and> issubclass INTEGER [Integer]
   \<and> c_autoincrement column_n = Some False
   \<and> match_column example_preparer line_v = Some (spec_v, True)
   \<and> parse_column example_preparer example_dialect line_v (new_state [])
        = Inr ((new_state [])\<lparr>columns := [column_v]\<rparr>, [])
   \<and> \<not> truthy (group spec_v ''autoincr'') \<and> \<not> issubclass VARCHAR [Integer]
   \<and> c_autoincrement column_v = None"
proof -
  have e: "columns (new_state []) = []" by (simp add: new_state_def)
  have t1: "truthy (group spec_id ''autoincr'')" by code_simp
  have t2: "\<not> truthy (group spec_n ''autoincr'')" by code_simp
  have t3: "\<not> truthy (group spec_v ''autoincr'')" by code_simp
  have i2: "issubclass INTEGER [Integer]" by code_simp
  have i3: "\<not> issubclass VARCHAR [Integer]" by code_simp
  from autoincrement_three_valued[OF match_line_id parse_line_id] t1 e
  have "c_autoincrement column_id = Some True" by simp
  moreover from autoincrement_three_valued[OF match_line_n parse_line_n] t2 i2 e
  have "c_autoincrement column_n = Some False" by (simp add: column_n_def)
  moreover from autoincrement_three_valued[OF match_line_v parse_line_v] t3 i3 e
  have "c_autoincrement column_v = None" by (simp add: column_v_def)
  ultimately show ?thesis
    using match_line_id parse_line_id match_line_n parse_line_n match_line_v parse_line_v
      t1 t2 t3 i2 i3 by simp
qed

lemma startswith_iff: "startswith s pre \<longleftrightarrow> (\<exists>b. s = pre @ b)"
proof
  assume "startswith s pre"
  then have "s = pre @ drop (length pre) s"
    by (metis append_take_drop_id startswith_def)
  then show "\<exists>b. s = pre @ b" ..
next
  assume "\<exists>b. s = pre @ b"
  then show "startswith s pre" by (auto simp: startswith_def)
qed

lemma contains_iff: "contains s sub \<longleftrightarrow> (\<exists>a b. s = a @ sub @ b)"
proof (induction s)
  case Nil
  then show ?case by simp
next
  case (Cons c cs)
  show ?case
  proof
    assume "contains (c # cs) sub"
    then have "startswith (c # cs) sub \<or> contains cs sub" by simp
    then show "\<exists>a b. c # cs = a @ sub @ b"
    proof
      assume "startswith (c # cs) sub"
      then obtain b where "c # cs = [] @ sub @ b" by (auto simp: startswith_iff)
      then show ?thesis by blast
    next
      assume "contains cs sub"
      then obtain a b where "cs = a @ sub @ b" using Cons.IH by blast
      then have "c # cs = (c # a) @ sub @ b" by simp
      then show ?thesis by blast
    qed
  next
    assume "\<exists>a b. c # cs = a @ sub @ b"
    then obtain a b where ab: "c # cs = a @ sub @ b" by blast
    show "contains (c # cs) sub"
    proof (cases a)
      case Nil
      with ab have "startswith (c # cs) sub" by (auto simp: startswith_iff)
      then show ?thesis by simp
    next
      case (Cons x a')
      with ab have "cs = a' @ sub @ b" by simp
      then have "contains cs sub" using Cons.IH by blast
      then show ?thesis by simp
    qed
  qed
qed

lemma match_column_substring:
  assumes "match_column p line = Some (spec, full)" and "group spec g = Some v"
  shows "contains line v"
proof -
  from assms(1) have "re_match (re_column p) line = Some spec
      \<or> re_match (re_column_loose p) line = Some spec"
    by (auto simp: match_column_def split: option.splits)
  then have "\<exists>a b. line = a @ v @ b"
    using re_match_substring assms(2) by blast
  then show ?thesis by (simp add: contains_iff)
qed

text \<open>
  C7. A column that \<open>_parse_column\<close> emits is nullable unless the \<open>notnull\<close> group of
  the match is the literal \<open>NOT NULL\<close>: it is nullable when the group holds \<open>NULL\<close>,
  when the group is unset, and for every line in which \<open>NOT NULL\<close> does not occur.
\<close>

theorem nullable_unless_not_null:
  assumes "match_column p line = Some (spec, full)"
    and "parse_column p d line st = Inr (st', ws)"
  shows "\<exists>col. columns st' = columns st @ [col] \<and>
           (c_nullable col \<longleftrightarrow> group spec ''notnull'' \<noteq> Some ''NOT NULL'') \<and>
           (group spec ''notnull'' = Some ''NULL'' \<longrightarrow> c_nullable col) \<and>
           (group spec ''notnull'' = None \<longrightarrow> c_nullable col) \<and>
           (\<not> contains line ''NOT NULL'' \<longrightarrow> c_nullable col)"
proof -
  from parse_column_emits[OF assms] obtain col
    where col: "column_of d spec = Inr col" and cols: "columns st' = columns st @ [col]"
    by blast
  have n: "c_nullable col \<longleftrightarrow> group spec ''notnull'' \<noteq> Some ''NOT NULL''"
    using column_of_fields(2)[OF col] by (simp add: column_nullable_def)
  have "contains line ''NOT NULL''" if "group spec ''notnull'' = Some ''NOT NULL''"
    using match_column_substring[OF assms(1) that] .
  with n cols show ?thesis by auto
qed

theorem nullable_unless_not_null_witness:
  "match_column example_preparer line_id = Some (spec_id, True)
   \<and> parse_column example_preparer example_dialect line_id (new_state [])
        = Inr ((new_state [])\<lparr>columns := [column_id]\<rparr>, [])
   \<and> group spec_id ''notnull'' = Some ''NOT NULL'' \<and> \<not> c_nullable column_id
   \<and> match_column example_preparer line_v = Some (spec_v, True)
   \<and> parse_column example_preparer example_dialect line_v (new_state [])
        = Inr ((new_state [])\<lparr>columns := [column_v]\<rparr>, [])
   \<and> group spec_v ''notnull'' = Some ''NULL'' \<and> c_nullable column_v
   \<and> match_column example_preparer line_n = Some (spec_n, True)
   \<and> parse_column example_preparer example_dialect line_n (new_state [])
        = Inr ((new_state [])\<lparr>columns := [column_n]\<rparr>, [])
   \<and> \<not> contains line_n ''NOT NULL'' \<and> c_nullable column_n"
proof -
  have e: "columns (new_state []) = []" by (simp add: new_state_def)
  have g1: "group spec_id ''notnull'' = Some ''NOT NULL''" by code_simp
  have g2: "group spec_v ''notnull'' = Some ''NULL''" by code_simp
  have g3: "\<not> contains line_n ''NOT NULL''" by code_simp
  have g3': "group spec_n ''notnull'' = None" by code_simp
  from nullable_unless_not_null[OF match_line_id parse_line_id] g1 e
  have "\<not> c_nullable column_id" by simp
  moreover from nullable_unless_not_null[OF match_line_v parse_line_v] g2 e
  have "c_nullable column_v" by simp
  moreover from nullable_unless_not_null[OF match_line_n parse_line_n] g3 g3' e
  have "c_nullable column_n" by simp
  ultimately show ?thesis
    using match_line_id parse_line_id match_line_v parse_line_v match_line_n parse_line_n
      g1 g2 g3 by simp
qed

lemma strip_values_length: "strip_values xs = Inr ys \<Longrightarrow> length ys = length xs"
  by (induction xs arbitrary: ys) (auto split: sum.splits)

lemma map_of_flag_kw:
  assumes "k \<noteq> ''unsigned''" "k \<noteq> ''zerofill''" "k \<noteq> ''charset''" "k \<noteq> ''collate''"
  shows "map_of (flag_kw spec kw) k = map_of kw k"
  using assms by (simp add: flag_kw_def update_conv')

lemma enum_set_args_other:
  assumes "enum_set_args ct xs kw = Inr (targs, tkw)"
  shows "length targs = length xs"
    and "\<not> issubclass ct [ENUM, SET] \<Longrightarrow> targs = xs"
    and "k \<noteq> ''retrieve_as_bitwise'' \<Longrightarrow> map_of tkw k = map_of kw k"
  using assms
  by (auto simp: enum_set_args_def update_conv' strip_values_length
           split: if_splits sum.splits)

text \<open>
  C8. When the resolved type derives from \<open>DATETIME\<close>, \<open>TIME\<close> or \<open>TIMESTAMP\<close>, the
  first type argument, if there is one, becomes the keyword \<open>fsp\<close> and leaves the
  positional arguments; with no argument there is no \<open>fsp\<close>.
\<close>

theorem fsp_taken_from_first_argument:
  assumes "match_column p line = Some (spec, full)"
    and "parse_column p d line st = Inr (st', ws)"
    and "issubclass (col_type_of d spec) [DATETIME, TIME, TIMESTAMP]"
  shows "\<exists>col. columns st' = columns st @ [col] \<and>
           t_class (c_type col) = col_type_of d spec \<and>
           (case column_type_args (group spec ''arg'') of
              [] \<Rightarrow> map_of (t_kw (c_type col)) ''fsp'' = None \<and> t_args (c_type col) = []
            | a # as \<Rightarrow>
                map_of (t_kw (c_type col)) ''fsp'' = Some a \<and>
                length (t_args (c_type col)) = length as \<and>
                (\<not> issubclass (col_type_of d spec) [ENUM, SET] \<longrightarrow> t_args (c_type col) = as))"
proof -
  from parse_column_emits[OF assms(1,2)] obtain col
    where col: "column_of d spec = Inr col" and cols: "columns st' = columns st @ [col]"
    by blast
  let ?ct = "col_type_of d spec"
  let ?raw = "column_type_args (group spec ''arg'')"
  let ?split = "fsp_split ?ct ?raw"
  have es: "enum_set_args ?ct (fst ?split) (flag_kw spec (snd ?split))
              = Inr (t_args (c_type col), t_kw (c_type col))"
    using column_of_fields(4)[OF col] .
  have fsp: "map_of (t_kw (c_type col)) ''fsp'' = map_of (snd ?split) ''fsp''"
    using enum_set_args_other(3)[OF es, of "''fsp''"] by (simp add: map_of_flag_kw)
  have len: "length (t_args (c_type col)) = length (fst ?split)"
    using enum_set_args_other(1)[OF es] .
  have same: "\<not> issubclass ?ct [ENUM, SET] \<Longrightarrow> t_args (c_type col) = fst ?split"
    using enum_set_args_other(2)[OF es] .
  have "case ?raw of
          [] \<Rightarrow> map_of (t_kw (c_type col)) ''fsp'' = None \<and> t_args (c_type col) = []
        | a # as \<Rightarrow>
            map_of (t_kw (c_type col)) ''fsp'' = Some a \<and>
            length (t_args (c_type col)) = length as \<and>
            (\<not> issubclass ?ct [ENUM, SET] \<longrightarrow> t_args (c_type col) = as)"
  proof (cases ?raw)
    case Nil
    then have "?split = ([], [])" using assms(3) by (simp add: fsp_split_def)
    with fsp len Nil show ?thesis by simp
  next
    case (Cons a as)
    then have "?split = (as, [(''fsp'', a)])" using assms(3) by (simp add: fsp_split_def)
    with fsp len same Cons show ?thesis by simp
  qed
  with cols column_of_fields(1)[OF col] show ?thesis by blast
qed

lemma match_line_ts: "match_column example_preparer line_ts = Some (spec_ts, True)"
  by code_simp

lemma parse_line_ts:
  "parse_column example_preparer example_dialect line_ts (new_state [])
     = Inr ((new_state [])\<lparr>columns := [column_ts]\<rparr>, [])"
  by code_simp

theorem fsp_taken_from_first_argument_witness:
  "match_column example_preparer line_ts = Some (spec_ts, True)
   \<and> parse_column example_preparer example_dialect line_ts (new_state [])
        = Inr ((new_state [])\<lparr>columns := [column_ts]\<rparr>, [])
   \<and> issubclass (col_type_of example_dialect spec_ts) [DATETIME, TIME, TIMESTAMP]
   \<and> column_type_args (group spec_ts ''arg'') = [PyInt 3]
   \<and> map_of (t_kw (c_type column_ts)) ''fsp'' = Some (PyInt 3)
   \<and> t_args (c_type column_ts) = []"
proof -
  have e: "columns (new_state []) = []" by (simp add: new_state_def)
  have i: "issubclass (col_type_of example_dialect spec_ts) [DATETIME, TIME, TIMESTAMP]"
    by code_simp
  have a: "column_type_args (group spec_ts ''arg'') = [PyInt 3]" by code_simp
  from fsp_taken_from_first_argument[OF match_line_ts parse_line_ts i] a e
  have "map_of (t_kw (c_type column_ts)) ''fsp'' = Some (PyInt 3)
        \<and> t_args (c_type column_ts) = []" by simp
  then show ?thesis using match_line_ts parse_line_ts i a by simp
qed

lemma lower_chr_sq: "lower_chr c = lower_chr sq \<Longrightarrow> c = sq"
  by (cases c) (auto simp: lower_chr_code sq_def split: if_splits)

lemma run_Lit:
  assumes "st' \<in> set (run (Lit c) st)"
  shows "\<exists>x. rest_of st = x # rest_of st' \<and> lower_chr x = lower_chr c"
proof (cases "rest_of st")
  case Nil
  with assms show ?thesis by (simp add: Lit_def)
next
  case (Cons x xs)
  with assms show ?thesis
    by (auto simp: Lit_def rest_of_def split: if_splits)
qed

lemma csv_str_shape:
  assumes "st' \<in> set (run re_csv_str st)"
  shows "\<exists>inner. rest_of st = sq # inner @ [sq] @ rest_of st'"
proof -
  let ?body = "Star (Alt (Str [sq, sq]) notsq)"
  from assms obtain s1 s2 where s1: "s1 \<in> set (run (Lit sq) st)"
    and s2: "s2 \<in> set (run ?body s1)" and s3: "st' \<in> set (run (Lit sq) s2)"
    by (auto simp: re_csv_str_def Seqs_def)
  from run_Lit[OF s1] have a: "rest_of st = sq # rest_of s1"
    using lower_chr_sq by blast
  from run_within[OF s2] obtain w where b: "rest_of s1 = w @ rest_of s2"
    by (auto simp: within_def)
  from run_Lit[OF s3] have c: "rest_of s2 = sq # rest_of st'"
    using lower_chr_sq by blast
  from a b c have "rest_of st = sq # w @ [sq] @ rest_of st'" by simp
  then show ?thesis by blast
qed

lemma re_match_at_csv_str:
  assumes "re_match_at re_csv_str b s = Some res"
  shows "\<exists>inner. s = sq # inner @ [sq] @ fst res"
proof -
  from assms obtain st sts where r: "run re_csv_str (b, s, []) = st # sts"
    and res: "res = (rest_of st, caps_of st)"
    by (auto simp: re_match_at_def split: list.splits)
  from r have "st \<in> set (run re_csv_str (b, s, []))" by simp
  from csv_str_shape[OF this] res show ?thesis by (simp add: rest_of_def)
qed

lemma finditer_csv_str_shape:
  "x \<in> set (re_finditer_at re_csv_str b s) \<Longrightarrow> \<exists>inner. fst x = sq # inner @ [sq]"
proof (induction "length s" arbitrary: s b rule: less_induct)
  case less
  show ?case
  proof (cases s)
    case Nil
    have "re_match_at re_csv_str b [] = None"
    proof (cases "re_match_at re_csv_str b []")
      case None
      then show ?thesis .
    next
      case (Some res)
      from re_match_at_csv_str[OF Some] show ?thesis by simp
    qed
    with less.prems Nil show ?thesis by simp
  next
    case (Cons c cs)
    show ?thesis
    proof (cases "re_match_at re_csv_str b (c # cs)")
      case None
      with less.prems Cons have mem: "x \<in> set (re_finditer_at re_csv_str False cs)" by simp
      have len: "length cs < length s" using Cons by simp
      show ?thesis by (rule less.hyps[OF len mem])
    next
      case (Some res)
      from re_match_at_csv_str[OF Some] obtain inner
        where sh: "c # cs = sq # inner @ [sq] @ fst res" by blast
      have "length (c # cs) = length (sq # inner @ [sq] @ fst res)"
        using sh by simp
      then have n: "length (c # cs) = Suc (Suc (length inner + length (fst res)))"
        by simp
      then have lt: "length (fst res) < length (c # cs)" by simp
      have "take (length (c # cs) - length (fst res)) (sq # inner @ [sq] @ fst res)
              = sq # inner @ [sq]"
        using n by simp
      then have tk: "take (length (c # cs) - length (fst res)) (c # cs) = sq # inner @ [sq]"
        using sh by metis
      from less.prems Cons Some lt
      have "x = (take (length (c # cs) - length (fst res)) (c # cs), snd res)
            \<or> x \<in> set (re_finditer_at re_csv_str False (fst res))"
        by simp
      then show ?thesis
      proof
        assume "x = (take (length (c # cs) - length (fst res)) (c # cs), snd res)"
        with tk show ?thesis by simp
      next
        assume mem: "x \<in> set (re_finditer_at re_csv_str False (fst res))"
        have len: "length (fst res) < length s" using lt Cons by simp
        show ?thesis by (rule less.hyps[OF len mem])
      qed
    qed
  qed
qed

lemma in_set_tl: "x \<in> set (tl xs) \<Longrightarrow> x \<in> set xs"
  by (cases xs) auto

lemma quoted_literals_shape:
  assumes "x \<in> set (quoted_literals args)"
  shows "\<exists>inner. x = sq # inner @ [sq]"
proof -
  from assms obtain a where "x \<in> set (re_findall re_csv_str a)"
    by (auto simp: quoted_literals_def split: option.splits if_splits)
  then obtain y where y: "y \<in> set (re_finditer_at re_csv_str True a)" and x: "x = fst y"
    by (auto simp: re_findall_def)
  from finditer_csv_str_shape[OF y] x show ?thesis by simp
qed

text \<open>
  The call \<open>a[1:-1].replace(a[0] * 2, a[0])\<close> of \<open>_strip_values\<close> on a literal in single
  quotes: \<open>str.replace\<close> with the doubled quote as the old text and the single quote as
  the new one is \<open>undouble\<close>.
\<close>

lemma replace_undouble: "replace [sq, sq] [sq] s = undouble s"
proof -
  have "replace_ne [sq, sq] [sq] s = undouble s"
  proof (induction s rule: undouble.induct)
    case (1 a b s)
    show ?case
    proof (cases "a = sq \<and> b = sq")
      case True
      with 1 show ?thesis by (simp add: startswith_def)
    next
      case False
      with 1 show ?thesis by (auto simp: startswith_def)
    qed
  qed (simp_all add: startswith_def)
  then show ?thesis by (simp add: replace_def)
qed

lemma strip_value_quoted:
  "strip_value (PyStr (sq # inner @ [sq])) = Inr (PyStr (dequote (sq # inner @ [sq])))"
  by (simp add: dequote_def replace_undouble)

lemma strip_values_literals:
  assumes "\<forall>x \<in> set xs. \<exists>inner. x = sq # inner @ [sq]"
  shows "strip_values (map PyStr xs) = Inr (map (\<lambda>x. PyStr (dequote x)) xs)"
  using assms
proof (induction xs)
  case Nil
  then show ?case by simp
next
  case (Cons x xs)
  then obtain inner where "x = sq # inner @ [sq]" by auto
  with Cons show ?case using strip_value_quoted by simp
qed

lemma strip_values_ints:
  "strip_values (map (\<lambda>v. PyInt (f v)) ns) = Inr ys \<Longrightarrow> ns = []"
  by (cases ns) auto

lemma fst_fsp_split:
  "fst (fsp_split ct xs) = (if issubclass ct [DATETIME, TIME, TIMESTAMP] then tl xs else xs)"
  by (cases xs) (auto simp: fsp_split_def)

lemma snd_fsp_split_other: "k \<noteq> ''fsp'' \<Longrightarrow> map_of (snd (fsp_split ct xs)) k = None"
  by (cases xs) (auto simp: fsp_split_def)

lemma column_type_args_cases:
  "column_type_args args = map PyStr (quoted_literals args)
   \<or> (quoted_literals args = [] \<and>
       (\<exists>ns. column_type_args args = map (\<lambda>v. PyInt (int_of_digits v)) ns))"
  by (auto simp: column_type_args_def quoted_literals_def split: option.splits)

text \<open>
  C9. When the resolved type derives from \<open>ENUM\<close> or \<open>SET\<close>, the type arguments of an
  emitted column are the quoted literals of the argument text, each without its
  surrounding quotes and with every doubled quote inside replaced by one (\<open>dequote\<close>,
  which removes the first and the last character and applies \<open>undouble\<close>); and the keyword
  \<open>retrieve_as_bitwise\<close> is set, to true, exactly when the type derives from \<open>SET\<close> and
  the empty string is among these values.
\<close>

theorem enum_set_values_dequoted:
  assumes "match_column p line = Some (spec, full)"
    and "parse_column p d line st = Inr (st', ws)"
    and "issubclass (col_type_of d spec) [ENUM, SET]"
  shows "\<exists>col. columns st' = columns st @ [col] \<and>
           t_class (c_type col) = col_type_of d spec \<and>
           t_args (c_type col) =
             map (\<lambda>x. PyStr (dequote x))
               (if issubclass (col_type_of d spec) [DATETIME, TIME, TIMESTAMP]
                then tl (quoted_literals (group spec ''arg''))
                else quoted_literals (group spec ''arg'')) \<and>
           (\<forall>x \<in> set (quoted_literals (group spec ''arg'')). \<exists>inner. x = sq # inner @ [sq]) \<and>
           map_of (t_kw (c_type col)) ''retrieve_as_bitwise'' =
             (if issubclass (col_type_of d spec) [SET] \<and> PyStr [] \<in> set (t_args (c_type col))
              then Some (PyBool True) else None)"
proof -
  from parse_column_emits[OF assms(1,2)] obtain col
    where col: "column_of d spec = Inr col" and cols: "columns st' = columns st @ [col]"
    by blast
  let ?ct = "col_type_of d spec"
  let ?args = "group spec ''arg''"
  let ?raw = "column_type_args ?args"
  let ?split = "fsp_split ?ct ?raw"
  let ?kw = "flag_kw spec (snd ?split)"
  let ?lits = "quoted_literals ?args"
  let ?sel = "if issubclass ?ct [DATETIME, TIME, TIMESTAMP] then tl ?lits else ?lits"
  have es: "enum_set_args ?ct (fst ?split) ?kw = Inr (t_args (c_type col), t_kw (c_type col))"
    using column_of_fields(4)[OF col] .
  then have sv: "strip_values (fst ?split) = Inr (t_args (c_type col))"
    and kw: "t_kw (c_type col) =
               (if issubclass ?ct [SET] \<and> PyStr [] \<in> set (t_args (c_type col))
                then AList.update ''retrieve_as_bitwise'' (PyBool True) ?kw else ?kw)"
    using assms(3) by (auto simp: enum_set_args_def split: sum.splits)
  have none: "map_of ?kw ''retrieve_as_bitwise'' = None"
    by (simp add: map_of_flag_kw snd_fsp_split_other)
  have rab: "map_of (t_kw (c_type col)) ''retrieve_as_bitwise'' =
             (if issubclass ?ct [SET] \<and> PyStr [] \<in> set (t_args (c_type col))
              then Some (PyBool True) else None)"
    using kw none by (simp add: update_conv')
  have shape: "\<forall>x \<in> set ?lits. \<exists>inner. x = sq # inner @ [sq]"
    using quoted_literals_shape by blast
  have shape_sel: "\<forall>x \<in> set ?sel. \<exists>inner. x = sq # inner @ [sq]"
  proof
    fix x assume "x \<in> set ?sel"
    then have "x \<in> set ?lits" by (cases "issubclass ?ct [DATETIME, TIME, TIMESTAMP]") (simp_all add: in_set_tl)
    with shape show "\<exists>inner. x = sq # inner @ [sq]" by blast
  qed
  have targs: "t_args (c_type col) = map (\<lambda>x. PyStr (dequote x)) ?sel"
    using column_type_args_cases[of ?args]
  proof
    assume a: "?raw = map PyStr ?lits"
    have "fst ?split = map PyStr ?sel"
      using a by (simp add: fst_fsp_split map_tl)
    with sv strip_values_literals[OF shape_sel] show ?thesis by simp
  next
    assume "?lits = [] \<and> (\<exists>ns. ?raw = map (\<lambda>v. PyInt (int_of_digits v)) ns)"
    then obtain ns where e: "?lits = []" and b: "?raw = map (\<lambda>v. PyInt (int_of_digits v)) ns"
      by blast
    have "fst ?split = map (\<lambda>v. PyInt (int_of_digits v))
            (if issubclass ?ct [DATETIME, TIME, TIMESTAMP] then tl ns else ns)"
      using b by (simp add: fst_fsp_split map_tl)
    with sv have "strip_values (map (\<lambda>v. PyInt (int_of_digits v))
            (if issubclass ?ct [DATETIME, TIME, TIMESTAMP] then tl ns else ns))
          = Inr (t_args (c_type col))"
      by simp
    from strip_values_ints[OF this] \<open>fst ?split = _\<close> have "fst ?split = []"
      by simp
    with sv e show ?thesis by simp
  qed
  from cols column_of_fields(1)[OF col] targs shape rab show ?thesis by blast
qed

lemma match_line_set_empty:
  "match_column example_preparer line_set_empty = Some (spec_set_empty, True)"
  by code_simp

lemma parse_line_set_empty:
  "parse_column example_preparer example_dialect line_set_empty (new_state [])
     = Inr ((new_state [])\<lparr>columns := [column_set_empty]\<rparr>, [])"
  by code_simp

lemma match_line_set: "match_column example_preparer line_set = Some (spec_set, True)"
  by code_simp

lemma parse_line_set:
  "parse_column example_preparer example_dialect line_set (new_state [])
     = Inr ((new_state [])\<lparr>columns := [column_set]\<rparr>, [])"
  by code_simp

theorem enum_set_values_dequoted_witness:
  "match_column example_preparer line_set_empty = Some (spec_set_empty, True)
   \<and> parse_column example_preparer example_dialect line_set_empty (new_state [])
        = Inr ((new_state [])\<lparr>columns := [column_set_empty]\<rparr>, [])
   \<and> issubclass (col_type_of example_dialect spec_set_empty) [ENUM, SET]
   \<and> t_args (c_type column_set_empty) = [PyStr ''a'', PyStr [], PyStr ''b'']
   \<and> map_of (t_kw (c_type column_set_empty)) ''retrieve_as_bitwise'' = Some (PyBool True)
   \<and> match_column example_preparer line_set = Some (spec_set, True)
   \<and> parse_column example_preparer example_dialect line_set (new_state [])
        = Inr ((new_state [])\<lparr>columns := [column_set]\<rparr>, [])
   \<and> issubclass (col_type_of example_dialect spec_set) [ENUM, SET]
   \<and> quoted_literals (group spec_set ''arg'')
        = [[sq] @ ''it'' @ [sq, sq] @ ''s'' @ [sq], [sq] @ ''b'' @ [sq]]
   \<and> t_args (c_type column_set) = [PyStr (''it'' @ [sq] @ ''s''), PyStr ''b'']
   \<and> map_of (t_kw (c_type column_set)) ''retrieve_as_bitwise'' = None"
proof -
  have e: "columns (new_state []) = []" by (simp add: new_state_def)
  have i1: "issubclass (col_type_of example_dialect spec_set_empty) [ENUM, SET]" by code_simp
  have i2: "issubclass (col_type_of example_dialect spec_set) [ENUM, SET]" by code_simp
  have s1: "issubclass (col_type_of example_dialect spec_set_empty) [SET]" by code_simp
  have s2: "issubclass (col_type_of example_dialect spec_set) [SET]" by code_simp
  have f1: "\<not> issubclass (col_type_of example_dialect spec_set_empty) [DATETIME, TIME, TIMESTAMP]"
    by code_simp
  have f2: "\<not> issubclass (col_type_of example_dialect spec_set) [DATETIME, TIME, TIMESTAMP]"
    by code_simp
  have q1: "map (\<lambda>x. PyStr (dequote x)) (quoted_literals (group spec_set_empty ''arg''))
              = [PyStr ''a'', PyStr [], PyStr ''b'']"
    by code_simp
  have q2: "map (\<lambda>x. PyStr (dequote x)) (quoted_literals (group spec_set ''arg''))
              = [PyStr (''it'' @ [sq] @ ''s''), PyStr ''b'']"
    by code_simp
  have l2: "quoted_literals (group spec_set ''arg'')
              = [[sq] @ ''it'' @ [sq, sq] @ ''s'' @ [sq], [sq] @ ''b'' @ [sq]]"
    by code_simp
  from enum_set_values_dequoted[OF match_line_set_empty parse_line_set_empty i1] e f1 q1 s1
  have "t_args (c_type column_set_empty) = [PyStr ''a'', PyStr [], PyStr ''b'']
        \<and> map_of (t_kw (c_type column_set_empty)) ''retrieve_as_bitwise'' = Some (PyBool True)"
    by auto
  moreover
  from enum_set_values_dequoted[OF match_line_set parse_line_set i2] e f2 q2 s2
  have "t_args (c_type column_set) = [PyStr (''it'' @ [sq] @ ''s''), PyStr ''b'']
        \<and> map_of (t_kw (c_type column_set)) ''retrieve_as_bitwise'' = None"
    by auto
  ultimately show ?thesis
    using match_line_set_empty parse_line_set_empty match_line_set parse_line_set i1 i2 l2
    by simp
qed

section \<open>The table name\<close>

lemma startswith_Cons: "startswith s (c # cs) \<Longrightarrow> \<exists>t. s = c # t"
  by (cases s) (auto simp: startswith_def)

lemma create_line_dispatch:
  assumes "startswith line ''CREATE ''"
  shows "parse_line p d line st = Inr (parse_table_name p line st, [])"
proof -
  from startswith_Cons[OF assms] obtain t where t: "line = CHR ''C'' # t" by blast
  then have "\<not> startswith line (''  '' @ [initial_quote p])"
    and "\<not> startswith line '') ''" and "line \<noteq> '')''"
    by (auto simp: startswith_def)
  with assms show ?thesis by (simp add: parse_line_def)
qed

text \<open>
  C10. A line that begins with \<open>CREATE \<close> goes to \<open>_parse_table_name\<close>. When the
  header pattern does not match it, the state is left as it was (the table name of a fresh
  state stays \<open>None\<close>) and no warning is given; when the pattern matches, the table name
  becomes the captured name with the identifier escapes undone, and nothing else changes.
\<close>

theorem table_name_only_from_header:
  assumes "startswith line ''CREATE ''"
  shows "(re_match (pr_name p) line = None \<longrightarrow>
            parse_line p d line st = Inr (st, []) \<and>
            parse_lines p d [line] (new_state cs) = Inr (new_state cs, []) \<and>
            table_name (new_state cs) = None)
       \<and> (\<forall>m. re_match (pr_name p) line = Some m \<longrightarrow>
            parse_line p d line st =
              Inr (st\<lparr>table_name := Some (unescape_identifier p (group_str m ''name''))\<rparr>, []))"
  using create_line_dispatch[OF assms]
  by (simp add: parse_table_name_def new_state_def)

theorem table_name_only_from_header_witness:
  "startswith line_bad_header ''CREATE ''
   \<and> re_match (pr_name example_preparer) line_bad_header = None
   \<and> parse_line example_preparer example_dialect line_bad_header (new_state ''utf8'')
        = Inr (new_state ''utf8'', [])
   \<and> table_name (new_state ''utf8'') = None
   \<and> startswith line_header ''CREATE ''
   \<and> re_match (pr_name example_preparer) line_header = Some [(''name'', ''a'' @ [bq, bq] @ ''b'')]
   \<and> parse_line example_preparer example_dialect line_header (new_state ''utf8'')
        = Inr ((new_state ''utf8'')\<lparr>table_name := Some (''a'' @ [bq] @ ''b'')\<rparr>, [])"
proof -
  have h1: "startswith line_bad_header ''CREATE ''" by code_simp
  have n1: "re_match (pr_name example_preparer) line_bad_header = None" by code_simp
  have h2: "startswith line_header ''CREATE ''" by code_simp
  have n2: "re_match (pr_name example_preparer) line_header
              = Some [(''name'', ''a'' @ [bq, bq] @ ''b'')]" by code_simp
  have u: "unescape_identifier example_preparer
             (group_str [(''name'', ''a'' @ [bq, bq] @ ''b'')] ''name'') = ''a'' @ [bq] @ ''b''"
    by code_simp
  from table_name_only_from_header[OF h1, of example_preparer example_dialect "new_state ''utf8''" "''utf8''"] n1
  have a: "parse_line example_preparer example_dialect line_bad_header (new_state ''utf8'')
        = Inr (new_state ''utf8'', []) \<and> table_name (new_state ''utf8'') = None"
    by simp
  from table_name_only_from_header[OF h2, of example_preparer example_dialect "new_state ''utf8''" "''utf8''"] n2 u
  have b: "parse_line example_preparer example_dialect line_header (new_state ''utf8'')
        = Inr ((new_state ''utf8'')\<lparr>table_name := Some (''a'' @ [bq] @ ''b'')\<rparr>, [])"
    by simp
  from a b h1 n1 h2 n2 show ?thesis by simp
qed

section \<open>Table options\<close>

lemma scan_orders:
  "list_all (\<lambda>l. fst (scan_options pr_options [] l)
        = [(''comment'', ''hi''), (''engine'', ''InnoDB''), (''default charset'', ''utf8'')])
     option_orders"
  by code_simp

lemma option_orders_nonempty:
  "list_all (\<lambda>l. l \<noteq> [] \<and> l \<noteq> '')'') option_orders"
  by code_simp

lemma store_other:
  "k \<notin> (\<lambda>ov. pre @ fst ov) ` set os \<Longrightarrow>
     map_of (foldl (\<lambda>tos ov. AList.update (pre @ fst ov) (snd ov) tos) T os) k = map_of T k"
  by (induction os arbitrary: T) (auto simp: update_conv')

lemma store_keys:
  "fst ` set (foldl (\<lambda>tos ov. AList.update (pre @ fst ov) (snd ov) tos) T os)
     = fst ` set T \<union> (\<lambda>ov. pre @ fst ov) ` set os"
  by (induction os arbitrary: T) (auto simp: dom_update)

lemma discard_keys:
  "fst ` set (foldl (\<lambda>os nope. AList.delete nope os) os ns) = fst ` set os - set ns"
proof (induction ns arbitrary: os)
  case Nil
  then show ?case by simp
next
  case (Cons n ns)
  have "fst ` set (AList.delete n os) = fst ` set os - {n}"
    using delete_keys[of n os] by (metis list.set_map set_removeAll)
  with Cons show ?case by auto
qed

lemma scan_distinct:
  "distinct (map fst os) \<Longrightarrow> distinct (map fst (fst (scan_options prs os rest)))"
proof (induction prs arbitrary: os rest)
  case Nil
  then show ?case by simp
next
  case (Cons pr prs)
  show ?case
  proof (cases "re_search (fst pr) rest")
    case None
    with Cons show ?thesis by simp
  next
    case (Some m)
    have "distinct (map fst (AList.update (lower (group_str m ''directive''))
               (case snd pr of None \<Rightarrow> group_str m ''val''
                | Some cleanup \<Rightarrow> cleanup (group_str m ''val'')) os))"
      using Cons.prems by (rule distinct_update)
    from Cons.IH[OF this] Some show ?thesis by simp
  qed
qed

lemma options_found_distinct: "distinct (map fst (options_found line))"
  using scan_distinct[of "[]" pr_options line] by (simp add: options_found_def)

lemma discard_distinct:
  "distinct (map fst os) \<Longrightarrow> distinct (map fst (foldl (\<lambda>os nope. AList.delete nope os) os ns))"
  by (induction ns arbitrary: os) (simp_all add: distinct_delete)

lemma discard_map_of:
  "map_of (foldl (\<lambda>os nope. AList.delete nope os) os ns) k
     = (if k \<in> set ns then None else map_of os k)"
  by (induction ns arbitrary: os) (auto simp: delete_conv')

lemma store_map_of:
  "distinct (map fst os) \<Longrightarrow>
     map_of (foldl (\<lambda>tos ov. AList.update (pre @ fst ov) (snd ov) tos) T os) (pre @ k)
       = (case map_of os k of Some v \<Rightarrow> Some v | None \<Rightarrow> map_of T (pre @ k))"
proof (induction os arbitrary: T)
  case Nil
  then show ?case by simp
next
  case (Cons ov os)
  obtain a b where ov: "ov = (a, b)" by (cases ov)
  from Cons.prems ov have d: "distinct (map fst os)" and n: "a \<notin> fst ` set os" by auto
  have ih: "map_of (foldl (\<lambda>tos ov. AList.update (pre @ fst ov) (snd ov) tos)
                      (AList.update (pre @ a) b T) os) (pre @ k)
            = (case map_of os k of Some v \<Rightarrow> Some v
               | None \<Rightarrow> map_of (AList.update (pre @ a) b T) (pre @ k))"
    by (rule Cons.IH[OF d])
  show ?case
  proof (cases "k = a")
    case True
    with n have "map_of os k = None" by (simp add: map_of_eq_None_iff)
    with ih True ov show ?thesis by (simp add: update_conv' split: option.splits)
  next
    case False
    then have "map_of (AList.update (pre @ a) b T) (pre @ k) = map_of T (pre @ k)"
      by (simp add: update_conv')
    with ih False ov show ?thesis by (simp split: option.splits)
  qed
qed

lemma parse_table_options_eq:
  "parse_table_options d line st =
     st\<lparr>table_options :=
          foldl (\<lambda>tos ov. AList.update ((d_name d @ ''_'') @ fst ov) (snd ov) tos)
            (table_options st)
            (foldl (\<lambda>os nope. AList.delete nope os) (options_found line) nopes)\<rparr>"
  by (simp add: parse_table_options_def options_found_def Let_def)

text \<open>
  C4. Let \<open>options_found line\<close> be what the scan of the options line finds.
  \<open>_parse_table_options\<close> never stores an entry for \<open>auto_increment\<close>,
  \<open>data directory\<close> or \<open>index directory\<close>, whether or not the scan found them. The keys
  of the resulting table options are exactly the keys that were there before together with
  the dialect name, an underscore and \<open>opt\<close>, for every found option \<open>opt\<close> other than
  these three; each such key holds the value that was found for \<open>opt\<close>; every other key
  keeps what it held, and no other field of the state changes. The line
  \<open>) ENGINE=InnoDB DEFAULT CHARSET=utf8 COMMENT='hi'\<close>, with its three directives in any
  of the six orders, gives the values \<open>InnoDB\<close>, \<open>utf8\<close> and \<open>hi\<close>.
\<close>

theorem table_options_extracted:
  "(\<forall>nope \<in> set nopes.
      map_of (table_options (parse_table_options d line st)) (d_name d @ ''_'' @ nope)
        = map_of (table_options st) (d_name d @ ''_'' @ nope)
      \<and> map_of (table_options (parse_table_options d line (new_state cs)))
           (d_name d @ ''_'' @ nope) = None)
   \<and> fst ` set (table_options (parse_table_options d line st))
        = fst ` set (table_options st)
          \<union> (\<lambda>opt. d_name d @ ''_'' @ opt) ` (fst ` set (options_found line) - set nopes)
   \<and> (\<forall>opt v. map_of (options_found line) opt = Some v \<and> opt \<notin> set nopes \<longrightarrow>
        map_of (table_options (parse_table_options d line st)) (d_name d @ ''_'' @ opt) = Some v)
   \<and> (\<forall>k. k \<notin> (\<lambda>opt. d_name d @ ''_'' @ opt) ` (fst ` set (options_found line) - set nopes)
        \<longrightarrow> map_of (table_options (parse_table_options d line st)) k
              = map_of (table_options st) k)
   \<and> parse_table_options d line st
        = st\<lparr>table_options := table_options (parse_table_options d line st)\<rparr>
   \<and> (\<forall>l \<in> set option_orders.
        table_options (parse_table_options d l (new_state cs))
          = [(d_name d @ ''_comment'', ''hi''), (d_name d @ ''_engine'', ''InnoDB''),
             (d_name d @ ''_default charset'', ''utf8'')])"
proof -
  define os where "os = foldl (\<lambda>os nope. AList.delete nope os) (options_found line) nopes"
  define pre where "pre = d_name d @ ''_''"
  have t: "\<And>s. table_options (parse_table_options d line s)
      = foldl (\<lambda>tos ov. AList.update (pre @ fst ov) (snd ov) tos) (table_options s) os"
    by (simp add: parse_table_options_eq os_def pre_def)
  have keys: "fst ` set os = fst ` set (options_found line) - set nopes"
    unfolding os_def by (rule discard_keys)
  have dist: "distinct (map fst os)"
    unfolding os_def by (rule discard_distinct[OF options_found_distinct])
  have img: "(\<lambda>ov. pre @ fst ov) ` set os
               = (\<lambda>opt. d_name d @ ''_'' @ opt) ` (fst ` set (options_found line) - set nopes)"
    unfolding keys[symmetric] pre_def by (simp add: image_image)
  have other: "\<And>s k. k \<notin> (\<lambda>opt. d_name d @ ''_'' @ opt)
                               ` (fst ` set (options_found line) - set nopes)
      \<Longrightarrow> map_of (table_options (parse_table_options d line s)) k = map_of (table_options s) k"
    unfolding t img[symmetric] by (rule store_other)
  have c1: "\<forall>nope \<in> set nopes.
      map_of (table_options (parse_table_options d line st)) (d_name d @ ''_'' @ nope)
        = map_of (table_options st) (d_name d @ ''_'' @ nope)
      \<and> map_of (table_options (parse_table_options d line (new_state cs)))
           (d_name d @ ''_'' @ nope) = None"
  proof
    fix nope assume n: "nope \<in> set nopes"
    have "d_name d @ ''_'' @ nope \<notin> (\<lambda>opt. d_name d @ ''_'' @ opt)
                               ` (fst ` set (options_found line) - set nopes)"
      using n by auto
    from other[OF this] show "map_of (table_options (parse_table_options d line st))
          (d_name d @ ''_'' @ nope) = map_of (table_options st) (d_name d @ ''_'' @ nope)
      \<and> map_of (table_options (parse_table_options d line (new_state cs)))
           (d_name d @ ''_'' @ nope) = None"
      by (simp add: new_state_def)
  qed
  have c2: "fst ` set (table_options (parse_table_options d line st))
        = fst ` set (table_options st)
          \<union> (\<lambda>opt. d_name d @ ''_'' @ opt) ` (fst ` set (options_found line) - set nopes)"
    unfolding t store_keys img ..
  have c3: "\<forall>opt v. map_of (options_found line) opt = Some v \<and> opt \<notin> set nopes \<longrightarrow>
        map_of (table_options (parse_table_options d line st)) (d_name d @ ''_'' @ opt) = Some v"
  proof (intro allI impI)
    fix opt v assume a: "map_of (options_found line) opt = Some v \<and> opt \<notin> set nopes"
    then have "map_of os opt = Some v" by (simp add: os_def discard_map_of)
    with store_map_of[OF dist, of pre "table_options st" opt]
    show "map_of (table_options (parse_table_options d line st)) (d_name d @ ''_'' @ opt) = Some v"
      unfolding t by (simp add: pre_def)
  qed
  have c4: "\<forall>k. k \<notin> (\<lambda>opt. d_name d @ ''_'' @ opt)
                       ` (fst ` set (options_found line) - set nopes)
        \<longrightarrow> map_of (table_options (parse_table_options d line st)) k
              = map_of (table_options st) k"
    using other by blast
  have c5: "parse_table_options d line st
        = st\<lparr>table_options := table_options (parse_table_options d line st)\<rparr>"
    by (simp add: parse_table_options_eq)
  have c6: "\<forall>l \<in> set option_orders.
        table_options (parse_table_options d l (new_state cs))
          = [(d_name d @ ''_comment'', ''hi''), (d_name d @ ''_engine'', ''InnoDB''),
             (d_name d @ ''_default charset'', ''utf8'')]"
  proof
    fix l assume l: "l \<in> set option_orders"
    with scan_orders have sc: "fst (scan_options pr_options [] l)
          = [(''comment'', ''hi''), (''engine'', ''InnoDB''), (''default charset'', ''utf8'')]"
      by (simp add: list_all_iff)
    from l option_orders_nonempty have ne: "l \<noteq> []" "l \<noteq> '')''"
      by (simp_all add: list_all_iff)
    show "table_options (parse_table_options d l (new_state cs))
            = [(d_name d @ ''_comment'', ''hi''), (d_name d @ ''_engine'', ''InnoDB''),
               (d_name d @ ''_default charset'', ''utf8'')]"
      using ne sc by (simp add: parse_table_options_def Let_def nopes_def new_state_def)
  qed
  from c1 c2 c3 c4 c5 c6 show ?thesis by blast
qed

theorem table_options_extracted_witness:
  "options_found line_autoinc
     = [(''data directory'', ''/d''), (''index directory'', ''/i''), (''engine'', ''InnoDB''),
        (''auto_increment'', ''5''), (''default charset'', ''utf8'')]
   \<and> ''auto_increment'' \<in> set nopes
   \<and> map_of (table_options (parse_table_options example_dialect line_autoinc (new_state [])))
        ''mysql_auto_increment'' = None
   \<and> map_of (options_found line_autoinc) ''engine'' = Some ''InnoDB''
   \<and> ''engine'' \<notin> set nopes
   \<and> map_of (table_options (parse_table_options example_dialect line_autoinc (new_state [])))
        ''mysql_engine'' = Some ''InnoDB''
   \<and> fst ` set (table_options (parse_table_options example_dialect line_autoinc (new_state [])))
        = {''mysql_engine'', ''mysql_default charset''}
   \<and> map_of (table_options (parse_table_options example_dialect line_autoinc (new_state [])))
        ''mysql_comment'' = None
   \<and> parse_table_options example_dialect line_autoinc (new_state [])
        = (new_state [])\<lparr>table_options :=
             [(''mysql_engine'', ''InnoDB''), (''mysql_default charset'', ''utf8'')]\<rparr>
   \<and> '') ENGINE=InnoDB DEFAULT CHARSET=utf8 COMMENT='' @ [sq] @ ''hi'' @ [sq] \<in> set option_orders
   \<and> table_options (parse_table_options example_dialect
        ('') ENGINE=InnoDB DEFAULT CHARSET=utf8 COMMENT='' @ [sq] @ ''hi'' @ [sq]) (new_state []))
      = [(''mysql_comment'', ''hi''), (''mysql_engine'', ''InnoDB''),
         (''mysql_default charset'', ''utf8'')]"
proof -
  have f: "options_found line_autoinc
     = [(''data directory'', ''/d''), (''index directory'', ''/i''), (''engine'', ''InnoDB''),
        (''auto_increment'', ''5''), (''default charset'', ''utf8'')]"
    by code_simp
  have a: "parse_table_options example_dialect line_autoinc (new_state [])
     = (new_state [])\<lparr>table_options :=
          [(''mysql_engine'', ''InnoDB''), (''mysql_default charset'', ''utf8'')]\<rparr>"
    by code_simp
  have n: "''auto_increment'' \<in> set nopes" by code_simp
  have ne: "''engine'' \<notin> set nopes" by code_simp
  have fe: "map_of (options_found line_autoinc) ''engine'' = Some ''InnoDB''" by code_simp
  have o: "'') ENGINE=InnoDB DEFAULT CHARSET=utf8 COMMENT='' @ [sq] @ ''hi'' @ [sq]
             \<in> set option_orders" by code_simp
  have dn: "d_name example_dialect = ''mysql''" by code_simp
  have e: "table_options (new_state []) = []" by (simp add: new_state_def)
  note t = table_options_extracted[of example_dialect line_autoinc "new_state []" "[]"]
  from t[THEN conjunct1] n dn
  have b: "map_of (table_options (parse_table_options example_dialect line_autoinc (new_state [])))
        ''mysql_auto_increment'' = None"
    by fastforce
  from t[THEN conjunct2, THEN conjunct1] f dn e
  have k: "fst ` set (table_options (parse_table_options example_dialect line_autoinc
                                       (new_state [])))
        = {''mysql_engine'', ''mysql_default charset''}"
    by (auto simp: nopes_def)
  from t[THEN conjunct2, THEN conjunct2, THEN conjunct1] fe ne dn
  have v: "map_of (table_options (parse_table_options example_dialect line_autoinc (new_state [])))
        ''mysql_engine'' = Some ''InnoDB''"
    by fastforce
  have "''mysql_comment'' \<notin> (\<lambda>opt. d_name example_dialect @ ''_'' @ opt)
           ` (fst ` set (options_found line_autoinc) - set nopes)"
    unfolding f dn by (auto simp: nopes_def)
  with t[THEN conjunct2, THEN conjunct2, THEN conjunct2, THEN conjunct1] e
  have c: "map_of (table_options (parse_table_options example_dialect line_autoinc (new_state [])))
        ''mysql_comment'' = None"
    by simp
  from t[THEN conjunct2, THEN conjunct2, THEN conjunct2, THEN conjunct2, THEN conjunct2] o dn
  have g: "table_options (parse_table_options example_dialect
        ('') ENGINE=InnoDB DEFAULT CHARSET=utf8 COMMENT='' @ [sq] @ ''hi'' @ [sq]) (new_state []))
      = [(''mysql_comment'', ''hi''), (''mysql_engine'', ''InnoDB''),
         (''mysql_default charset'', ''utf8'')]"
    by fastforce
  from f n b fe ne v k c a o g show ?thesis by simp
qed

section \<open>The scan of the options line\<close>






section \<open>Partition lines\<close>

lemma star_self: "st \<in> set (star f n st)"
  by (cases n) auto

lemma run_Seq_I: "st1 \<in> set (run r1 st) \<Longrightarrow> st2 \<in> set (run r2 st1) \<Longrightarrow> st2 \<in> set (run (Seq r1 r2) st)"
  by auto

lemma star_skip:
  assumes g: "\<And>f x r c. x \<noteq> CHR 0x0A \<Longrightarrow> g (f, x # r, c) = [(False, r, c)]"
  shows "nl \<notin> set a \<Longrightarrow> length a \<le> n \<Longrightarrow> \<exists>f'. (f', s, c) \<in> set (star g n (f, a @ s, c))"
proof (induction a arbitrary: n f)
  case Nil
  have "(f, s, c) \<in> set (star g n (f, [] @ s, c))" using star_self[of "(f, s, c)" g n] by simp
  then show ?case by blast
next
  case (Cons x a)
  then obtain n' where n: "n = Suc n'" and le: "length a \<le> n'"
    by (cases n) auto
  from Cons.prems have x: "x \<noteq> CHR 0x0A" and a: "nl \<notin> set a"
    by (auto simp: nl_def)
  from Cons.IH[OF a le, of False] obtain f' where
    f': "(f', s, c) \<in> set (star g n' (False, a @ s, c))" by blast
  have r: "g (f, x # a @ s, c) = [(False, a @ s, c)]"
    using g[OF x] by simp
  have "(f', s, c) \<in> set (star g (Suc n') (f, (x # a) @ s, c))"
    using f' by (simp add: r rest_of_def)
  then show ?case using n by blast
qed

lemma star_dot_skip:
  assumes "nl \<notin> set a" and "length a \<le> n"
  shows "\<exists>f'. (f', s, c) \<in> set (star (run (Atom Dot)) n (f, a @ s, c))"
proof (rule star_skip[OF _ assms])
  fix f x r c assume "x \<noteq> CHR 0x0A"
  then show "run (Atom Dot) (f, x # r, c) = [(False, r, c)]"
    by (simp add: rest_of_def caps_of_def)
qed

lemma run_Str_ci:
  "map lower_chr t = map lower_chr w \<Longrightarrow>
     (if w = [] then f else False, b, c) \<in> set (run (Str w) (f, t @ b, c))"
proof (induction w arbitrary: t f)
  case Nil
  then show ?case by (simp add: Str_def)
next
  case (Cons x w)
  then obtain y t' where t: "t = y # t'" and y: "lower_chr y = lower_chr x"
    and t': "map lower_chr t' = map lower_chr w"
    by (cases t) auto
  have 1: "(False, t' @ b, c) \<in> set (run (Lit x) (f, t @ b, c))"
    using t y by (simp add: Lit_def rest_of_def caps_of_def)
  have 2: "(if w = [] then False else False, b, c) \<in> set (run (Str w) (False, t' @ b, c))"
    by (rule Cons.IH[OF t'])
  have "Str (x # w) = Seq (Lit x) (Str w)" by (simp add: Str_def)
  with run_Seq_I[OF 1] 2 show ?case by simp
qed

lemma partition_matches:
  assumes "line = a @ t @ b" and "lower t = ''partition''" and "nl \<notin> set a"
  shows "re_match re_partition line \<noteq> None"
proof -
  let ?st = "(True, line, []::caps)"
  from star_dot_skip[OF assms(3), of "length line" "t @ b" "[]" True] assms(1)
  obtain f1 where 1: "(f1, t @ b, []) \<in> set (run (Star (Atom Dot)) ?st)"
    by (auto simp: rest_of_def)
  have 2: "(f1, t @ b, []) \<in> set (run (Opt (Str ''SUB'')) (f1, t @ b, []))"
    by (simp add: Opt_def)
  have "map lower_chr t = map lower_chr ''PARTITION''"
  proof -
    have "map lower_chr ''PARTITION'' = ''partition''" by code_simp
    with assms(2) show ?thesis by (simp add: lower_def)
  qed
  from run_Str_ci[OF this, of f1 b "[]"]
  have 3: "(False, b, []) \<in> set (run (Str ''PARTITION'') (f1, t @ b, []))" by simp
  have 4: "(False, b, []) \<in> set (run (Seq (Star (Atom Dot)) Eps) (False, b, []))"
    using star_self[of "(False, b, [])" "run (Atom Dot)" "length b"]
    by (simp add: rest_of_def)
  have "re_partition = Seq (Star (Atom Dot)) (Seq (Opt (Str ''SUB''))
          (Seq (Str ''PARTITION'') (Seq (Star (Atom Dot)) Eps)))"
    by (simp add: re_partition_def Seqs_def)
  moreover have "(False, b, []) \<in> set (run (Seq (Star (Atom Dot)) (Seq (Opt (Str ''SUB''))
          (Seq (Str ''PARTITION'') (Seq (Star (Atom Dot)) Eps)))) ?st)"
    by (rule run_Seq_I[OF 1], rule run_Seq_I[OF 2], rule run_Seq_I[OF 3], rule 4)
  ultimately have "run re_partition ?st \<noteq> []" by auto
  then show ?thesis
    by (auto simp: re_match_def re_match_at_def split: list.splits)
qed

text \<open>
  C2, as the code has it. A line that reaches \<open>_parse_constraints\<close>, is matched by none
  of the key, foreign key and check patterns, and contains \<open>PARTITION\<close> (in any case, and
  so also \<open>SUBPARTITION\<close>) is recognised: \<open>_parse_constraints\<close> returns the tag
  \<open>partition\<close> with the whole line, unchanged. \<open>parse\<close> then drops it: the state is
  left as it was and no warning is given.
\<close>

theorem partition_line_recognised_and_dropped:
  assumes "line = a @ t @ b" and "lower t = ''partition''" and "nl \<notin> set a"
    and "\<not> startswith line (''  '' @ [initial_quote p])"
    and "\<not> startswith line '') ''"
    and "\<not> startswith line ''CREATE ''"
    and "re_match (re_key p) line = None"
    and "re_match (re_fk_constraint p) line = None"
    and "re_match (re_ck_constraint p) line = None"
  shows "parse_constraints p line = Inr (Partition line)
       \<and> parse_line p d line st = Inr (st, [])"
proof -
  from partition_matches[OF assms(1-3)] obtain m where "re_match re_partition line = Some m"
    by auto
  with assms(7-9) have pc: "parse_constraints p line = Inr (Partition line)"
    by (simp add: parse_constraints_def)
  have "length t = 9" using assms(2) by (auto simp: lower_def dest: arg_cong[where f = length])
  then have "9 \<le> length line" using assms(1) by simp
  then have "line \<noteq> []" "line \<noteq> '')''" by auto
  with assms(4-6) pc show ?thesis by (simp add: parse_line_def)
qed

theorem partition_line_recognised_and_dropped_witness:
  "line_partition = '' '' @ ''PARTITION'' @ '' BY HASH (id)''
   \<and> lower ''PARTITION'' = ''partition'' \<and> nl \<notin> set '' ''
   \<and> \<not> startswith line_partition (''  '' @ [initial_quote example_preparer])
   \<and> \<not> startswith line_partition '') '' \<and> \<not> startswith line_partition ''CREATE ''
   \<and> re_match (re_key example_preparer) line_partition = None
   \<and> re_match (re_fk_constraint example_preparer) line_partition = None
   \<and> re_match (re_ck_constraint example_preparer) line_partition = None
   \<and> parse_constraints example_preparer line_partition = Inr (Partition line_partition)
   \<and> parse_line example_preparer example_dialect line_partition (new_state ''utf8'')
        = Inr (new_state ''utf8'', [])"
proof -
  have 1: "line_partition = '' '' @ ''PARTITION'' @ '' BY HASH (id)''" by code_simp
  have 2: "lower ''PARTITION'' = ''partition''" by code_simp
  have 3: "nl \<notin> set '' ''" by code_simp
  have 4: "\<not> startswith line_partition (''  '' @ [initial_quote example_preparer])" by code_simp
  have 5: "\<not> startswith line_partition '') ''" by code_simp
  have 6: "\<not> startswith line_partition ''CREATE ''" by code_simp
  have 7: "re_match (re_key example_preparer) line_partition = None" by code_simp
  have 8: "re_match (re_fk_constraint example_preparer) line_partition = None" by code_simp
  have 9: "re_match (re_ck_constraint example_preparer) line_partition = None" by code_simp
  from partition_line_recognised_and_dropped[OF 1 2 3 4 5 6 7 8 9,
      of example_dialect "new_state ''utf8''"] 1 2 3 4 5 6 7 8 9
  show ?thesis by simp
qed

text \<open>
  C2 as stated fails: the text of a partition line is not in the result of \<open>parse\<close>,
  which has no field for it. Parsing such a line alone gives the empty state.
\<close>

theorem partition_line_not_retained:
  "parse_constraints example_preparer line_partition = Inr (Partition line_partition)
   \<and> parse example_preparer example_dialect line_partition ''utf8'' = Inr (new_state ''utf8'', [])
   \<and> new_state ''utf8'' =
       \<lparr>columns = [], table_options = [], table_name = None, keys = [],
        fk_constraints = [], ck_constraints = [], charset = ''utf8''\<rparr>"
  by code_simp

section \<open>Lines that match nothing\<close>

lemma parse_lines_append:
  "parse_lines p d (xs @ ys) st =
     (case parse_lines p d xs st of
        Inl e \<Rightarrow> Inl e
      | Inr sw \<Rightarrow>
          (case parse_lines p d ys (fst sw) of
             Inl e \<Rightarrow> Inl e
           | Inr sw' \<Rightarrow> Inr (fst sw', snd sw @ snd sw')))"
  by (induction xs arbitrary: st) (auto split: sum.splits)

text \<open>
  A line that \<open>parse\<close> sends to \<open>_parse_constraints\<close> and that no pattern there matches
  changes nothing but the warnings: wherever it stands among lines that are parsed without
  an exception, the result is the state of those lines, and the warning
  \<open>Unknown schema content\<close> with the line is added at its place.
\<close>

lemma unknown_line_tolerated:
  assumes "\<not> startswith line (''  '' @ [initial_quote p])"
    and "\<not> startswith line '') ''" and "line \<noteq> '')''"
    and "\<not> startswith line ''CREATE ''" and "line \<noteq> []"
    and "parse_constraints p line = Inr (NoMatch line)"
    and "parse_lines p d xs st = Inr (st1, w1)"
    and "parse_lines p d ys st1 = Inr (st2, w2)"
  shows "parse_lines p d (xs @ ys) st = Inr (st2, w1 @ w2)
       \<and> parse_lines p d (xs @ line # ys) st = Inr (st2, w1 @ [UnknownSchemaContent line] @ w2)"
proof -
  have "parse_line p d line st1 = Inr (st1, [UnknownSchemaContent line])"
    using assms(1-6) by (simp add: parse_line_def)
  then have "parse_lines p d (line # ys) st1 = Inr (st2, [UnknownSchemaContent line] @ w2)"
    using assms(8) by simp
  with assms(7,8) show ?thesis by (simp add: parse_lines_append)
qed

text \<open>
  C3. The statement below has one line that matches no pattern (\<open>junk\<close>) and a column
  line that the column pattern matches. \<open>parse\<close> does not return: the type arguments of
  \<open>enum(3)\<close> are the integer 3, and \<open>_strip_values\<close> slices it as a string.
\<close>

theorem parse_aborts_on_enum_with_integer:
  "re_split (Seq (Opt (Lit cr)) (Lit nl)) text_enum_int
     = [''  '' @ [bq] @ ''a'' @ [bq] @ '' enum(3)'', ''junk'']
   \<and> match_column example_preparer (''  '' @ [bq] @ ''a'' @ [bq] @ '' enum(3)'')
       = Some ([(''arg'', ''3''), (''coltype'', ''enum''), (''name'', ''a'')], True)
   \<and> column_type_args (Some ''3'') = [PyInt 3]
   \<and> strip_values [PyInt 3] = Inl TypeError
   \<and> parse_constraints example_preparer ''junk'' = Inr (NoMatch ''junk'')
   \<and> parse example_preparer example_dialect text_enum_int ''utf8'' = Inl TypeError"
  by code_simp

text \<open>
  The constructor of the type is a further way out of \<open>parse\<close>: an exception it raises on
  the arguments read from the line leaves \<open>_parse_column\<close>. A column of a type that the
  registry does not know is given \<open>NullType\<close>, and an argument list after the type name
  is passed on to it.
\<close>

lemma constructor_error_leaves_parse_column:
  assumes "match_column p line = Some (spec, full)"
    and "enum_set_args (col_type_of d spec)
           (fst (fsp_split (col_type_of d spec) (column_type_args (group spec ''arg''))))
           (flag_kw spec (snd (fsp_split (col_type_of d spec)
                                  (column_type_args (group spec ''arg'')))))
         = Inr (args, kw)"
    and "init_error d (col_type_of d spec) args kw = Some e"
  shows "parse_column p d line st = Inl e"
  using assms by (simp add: parse_column_def column_of_def Let_def)

lemma unknown_type_with_argument_aborts:
  "match_column example_preparer line_unknown_arg
     = Some ([(''arg'', ''3''), (''coltype'', ''foo''), (''name'', ''x'')], True)
   \<and> col_type_of example_dialect [(''arg'', ''3''), (''coltype'', ''foo''), (''name'', ''x'')]
       = NullType
   \<and> parse_column example_preparer example_dialect line_unknown_arg (new_state ''utf8'')
       = Inl TypeError
   \<and> parse example_preparer example_dialect line_unknown_arg ''utf8'' = Inl TypeError"
  by code_simp

section \<open>From a column listing back to columns\<close>

text \<open>
  C1. A \<open>DESCRIBE\<close> row of a column that is not nullable has the text \<open>NO\<close> in its
  \<open>Null\<close> cell. \<open>_describe_to_create\<close> tests the cell for truth, the text \<open>NO\<close> is
  true, so \<open>NOT NULL\<close> is not written and the parser returns the column as nullable.
\<close>

theorem describe_round_trip_loses_not_null:
  "r_nullable row_id = PyStr ''NO''
   \<and> describe_to_create example_preparer ''t'' [row_id]
       = ''CREATE TABLE '' @ [bq] @ ''t'' @ [bq] @ '' ('' @ [nl]
         @ ''  '' @ [bq] @ ''id'' @ [bq] @ '' int(11) auto_increment'' @ [nl] @ '') ''
   \<and> parse example_preparer example_dialect
         (describe_to_create example_preparer ''t'' [row_id]) ''utf8''
       = Inr ((new_state ''utf8'')\<lparr>columns := [column_id_described True],
                                    table_name := Some ''t''\<rparr>, [])
   \<and> c_nullable (column_id_described True)"
  by code_simp

text \<open>
  With a cell that is false the same row comes back as not nullable. A name that contains
  the quote character comes back with the quote doubled: \<open>_parse_column\<close> does not undo
  the escape that \<open>quote_identifier\<close> applied, as \<open>_parse_table_name\<close> does.
\<close>

lemma describe_round_trip_examples:
  "parse example_preparer example_dialect
     (describe_to_create example_preparer ''t'' [row_flag, row_quote]) ''utf8''
   = Inr ((new_state ''utf8'')
            \<lparr>columns :=
               [column_id_described False,
                \<lparr>c_name = Some (''a'' @ [bq, bq] @ ''b''),
                 c_type = \<lparr>t_class = VARCHAR, t_args = [PyInt 8], t_kw = []\<rparr>,
                 c_default = Some ([sq] @ ''x'' @ [sq]), c_comment = None, c_nullable = True,
                 c_autoincrement = None, c_computed = None\<rparr>],
             table_name := Some ''t''\<rparr>, [])"
  by code_simp

end
